theory Spec2Isabelle
  imports Main "HOL-Library.Sublist" "HOL-Library.Word"
begin

section \<open>JavaScript values and operations used by monitor_file_ops.js\<close>

text \<open>
  Exceptions are values. \<open>ReferenceError\<close> is what reading an identifier with no binding
  raises, \<open>TypeError\<close> what a property access on \<open>undefined\<close> raises, and \<open>Error\<close> stands
  for an exception thrown by the host (the instrumentation runtime or the hooked program).
\<close>

datatype js_error = ReferenceError string | TypeError string | Error string

subsection \<open>Numbers as decimal strings\<close>

text \<open>
  \<open>NativePointer.toInt32()\<close> reads the low 32 bits of an argument as a signed integer, and
  string concatenation with a number (or \<open>Number.prototype.toString\<close>) writes an integer in
  decimal, with a leading minus sign when it is negative.
\<close>

definition toInt32 :: "'a::len word \<Rightarrow> int" where
  "toInt32 p = sint (ucast p :: 32 word)"

definition digit_char :: "nat \<Rightarrow> char" where
  "digit_char d = ''0123456789'' ! d"

fun nat_toString :: "nat \<Rightarrow> string" where
  "nat_toString n =
     (if n < 10 then [digit_char n] else nat_toString (n div 10) @ [digit_char (n mod 10)])"

declare nat_toString.simps [simp del]

definition int_toString :: "int \<Rightarrow> string" where
  "int_toString i =
     (if i < 0 then CHR ''-'' # nat_toString (nat (- i)) else nat_toString (nat i))"

text \<open>Reading a decimal string back, used to show that the decimal form loses nothing.\<close>

definition digit_val :: "char \<Rightarrow> nat" where
  "digit_val c = of_char c - (48 :: nat)"

definition nat_ofString :: "string \<Rightarrow> nat" where
  "nat_ofString s = foldl (\<lambda>acc c. 10 * acc + digit_val c) 0 s"

definition int_ofString :: "string \<Rightarrow> int" where
  "int_ofString s =
     (case s of [] \<Rightarrow> 0
      | c # cs \<Rightarrow> if c = CHR ''-'' then - int (nat_ofString cs) else int (nat_ofString (c # cs)))"

subsection \<open>Strings\<close>

text \<open>
  A Java \<open>String\<close> argument reaches the hook as a JavaScript string, or as \<open>null\<close> when the
  caller passed a null reference; concatenating \<open>null\<close> to a string appends the text "null".
\<close>

definition js_str :: "string option \<Rightarrow> string" where
  "js_str v = (case v of None \<Rightarrow> ''null'' | Some s \<Rightarrow> s)"

text \<open>
  \<open>String.prototype.indexOf\<close>: the index of the first occurrence of the search string,
  or \<open>-1\<close> when there is none.
\<close>

fun indexOf_from :: "nat \<Rightarrow> string \<Rightarrow> string \<Rightarrow> int" where
  "indexOf_from k [] needle = (if needle = [] then int k else - 1)"
| "indexOf_from k (c # cs) needle =
     (if prefix needle (c # cs) then int k else indexOf_from (Suc k) cs needle)"

definition indexOf :: "string \<Rightarrow> string \<Rightarrow> int" where
  "indexOf s needle = indexOf_from 0 s needle"

section \<open>The monitored-API filter\<close>

definition monitoredApis :: "string list" where
  "monitoredApis =
     [''java.io.File.<init>'',
      ''java.io.FileInputStream.<init>'',
      ''java.io.FileOutputStream.<init>'',
      ''android.content.Context.openFileOutput'',
      ''android.content.Context.openFileInput'',
      ''android.content.res.AssetManager.open'']"

definition shouldLogApi :: "string \<Rightarrow> bool" where
  "shouldLogApi apiName = (apiName \<in> set monitoredApis)"

section \<open>Call-site resolution in the java.io.File constructor hook\<close>

text \<open>
  A captured frame is a \<open>DebugSymbol\<close> object (the result of \<open>DebugSymbol.fromAddress\<close>);
  only its \<open>toString()\<close> text is used. An object is always truthy, so the test
  \<open>stack[i] &&\<close> of the loop never fails on such a frame.
\<close>

datatype DebugSymbol = DebugSymbol (symbol_toString: string)

definition truthy_object :: "DebugSymbol \<Rightarrow> bool" where
  "truthy_object s = True"

text \<open>
  The \<open>for\<close> loop over the frames, from index \<open>i\<close> with the current value of \<open>callSite\<close>:
  the first frame whose text contains "com.example" is assigned and the loop is left.
\<close>

function scan_frames :: "DebugSymbol list \<Rightarrow> nat \<Rightarrow> string \<Rightarrow> string" where
  "scan_frames stack i callSite =
     (if i < length stack then
        (if truthy_object (stack ! i)
            \<and> 0 \<le> indexOf (symbol_toString (stack ! i)) ''com.example''
         then symbol_toString (stack ! i)
         else scan_frames stack (Suc i) callSite)
      else callSite)"
  by pat_completeness auto
termination
  by (relation "measure (\<lambda>(stack, i, callSite). length stack - i)") auto

declare scan_frames.simps [simp del]

text \<open>
  The whole resolution: \<open>callSite\<close> starts as the empty string, the loop runs, and when
  \<open>callSite\<close> is still empty (\<open>!callSite\<close>) and there is a frame, the first frame is used.
\<close>

definition resolve_callSite :: "DebugSymbol list \<Rightarrow> string" where
  "resolve_callSite stack =
     (let callSite = scan_frames stack 0 [] in
      if callSite = [] \<and> 0 < length stack then symbol_toString (stack ! 0) else callSite)"

text \<open>
  The resolver as the specification words it: the first frame matching the
  application-namespace predicate, otherwise the first frame of the sequence.
\<close>

definition is_app_frame :: "DebugSymbol \<Rightarrow> bool" where
  "is_app_frame f = sublist ''com.example'' (symbol_toString f)"

definition spec_callSite :: "DebugSymbol list \<Rightarrow> string" where
  "spec_callSite stack =
     (case find is_app_frame stack of
        Some f \<Rightarrow> symbol_toString f
      | None \<Rightarrow> symbol_toString (hd stack))"

section \<open>Structured event lines\<close>

text \<open>
  The structured record of the output stream as the interface description gives it:
  the fields \<open>type\<close> (constant "api"), \<open>name\<close>, \<open>method\<close> and \<open>args\<close>, in this order,
  every value written between double quotes.
\<close>

fun args_json :: "(string \<times> string) list \<Rightarrow> string" where
  "args_json [] = []"
| "args_json [(k, v)] = ''\"'' @ k @ ''\":\"'' @ v @ ''\"''"
| "args_json ((k, v) # kvs) = ''\"'' @ k @ ''\":\"'' @ v @ ''\",'' @ args_json kvs"

definition event_line :: "string \<Rightarrow> string \<Rightarrow> (string \<times> string) list \<Rightarrow> string" where
  "event_line name method args =
     ''{\"type\":\"api\",\"name\":\"'' @ name @ ''\",\"method\":\"'' @ method
       @ ''\",\"args\":{'' @ args_json args @ ''}}''"

text \<open>A line of the console is a structured event line when it opens as such a record.\<close>

definition is_event_line :: "string \<Rightarrow> bool" where
  "is_event_line l = prefix ''{\"type\":\"api\",\"name\":\"'' l"

definition is_event_of :: "string \<Rightarrow> string \<Rightarrow> bool" where
  "is_event_of name l = prefix (''{\"type\":\"api\",\"name\":\"'' @ name @ ''\",'') l"

section \<open>The managed hooks\<close>

text \<open>
  What one run of a replaced implementation does: the lines it writes to the console,
  the argument vectors with which it invokes the original implementation (in order),
  and what it hands back to its caller, a value or an exception.
\<close>

record ('a, 'r) hook_run =
  logged :: "string list"
  forwarded :: "'a list"
  outcome :: "js_error + 'r"

text \<open>
  Lines 23 to 46 of the \<open>java.io.File\<close> constructor hook. \<open>backtrace\<close> is what the stack
  capture \<open>Thread.backtrace(...).map(DebugSymbol.fromAddress)\<close> yields: a frame list, or
  the exception it raises. Nothing in the hook catches an exception.
\<close>

definition File_init_steps ::
  "(js_error + DebugSymbol list) \<Rightarrow> string option \<Rightarrow> js_error + string list" where
  "File_init_steps backtrace path =
     (let apiName = ''java.io.File.<init>'' in
      if shouldLogApi apiName then
        (case backtrace of
           Inl e \<Rightarrow> Inl e
         | Inr stack \<Rightarrow>
             (let callSite = resolve_callSite stack in
              Inr [''[File] Creating file: '' @ js_str path,
                   ''{\"type\":\"api\",\"name\":\"'' @ apiName @ ''\",\"method\":\"'' @ callSite
                     @ ''\",\"args\":{\"path\":\"'' @ js_str path @ ''\"}}'']))
      else Inr [])"

text \<open>The hook: the steps above, then \<open>return this.$init(path)\<close>.\<close>

definition File_init_impl ::
  "(js_error + DebugSymbol list) \<Rightarrow> (string option \<Rightarrow> js_error + 'r) \<Rightarrow> string option
     \<Rightarrow> (string option, 'r) hook_run" where
  "File_init_impl backtrace init path =
     (case File_init_steps backtrace path of
        Inl e \<Rightarrow> \<lparr>logged = [], forwarded = [], outcome = Inl e\<rparr>
      | Inr ls \<Rightarrow> \<lparr>logged = ls, forwarded = [path], outcome = init path\<rparr>)"

definition FileOutputStream_init_steps :: "string option \<Rightarrow> string list" where
  "FileOutputStream_init_steps path =
     [''[FileOutputStream] Opening file output stream: '' @ js_str path,
      ''{\"type\":\"api\",\"name\":\"java.io.FileOutputStream.<init>\",\"method\":\"unknown\",\"args\":{\"path\":\"''
        @ js_str path @ ''\"}}'']"

definition FileOutputStream_init_impl ::
  "(string option \<Rightarrow> js_error + 'r) \<Rightarrow> string option \<Rightarrow> (string option, 'r) hook_run" where
  "FileOutputStream_init_impl init path =
     \<lparr>logged = FileOutputStream_init_steps path, forwarded = [path], outcome = init path\<rparr>"

definition FileInputStream_init_steps :: "string option \<Rightarrow> string list" where
  "FileInputStream_init_steps path =
     [''[FileInputStream] Opening file input stream: '' @ js_str path,
      ''{\"type\":\"api\",\"name\":\"java.io.FileInputStream.<init>\",\"method\":\"unknown\",\"args\":{\"path\":\"''
        @ js_str path @ ''\"}}'']"

definition FileInputStream_init_impl ::
  "(string option \<Rightarrow> js_error + 'r) \<Rightarrow> string option \<Rightarrow> (string option, 'r) hook_run" where
  "FileInputStream_init_impl init path =
     \<lparr>logged = FileInputStream_init_steps path, forwarded = [path], outcome = init path\<rparr>"

definition openFileOutput_steps :: "string option \<Rightarrow> string list" where
  "openFileOutput_steps fileName =
     [''[Context] Opening file output: '' @ js_str fileName,
      ''{\"type\":\"api\",\"name\":\"android.content.Context.openFileOutput\",\"method\":\"unknown\",\"args\":{\"fileName\":\"''
        @ js_str fileName @ ''\"}}'']"

definition openFileOutput_impl ::
  "(string option \<Rightarrow> int \<Rightarrow> js_error + 'r) \<Rightarrow> string option \<Rightarrow> int
     \<Rightarrow> (string option \<times> int, 'r) hook_run" where
  "openFileOutput_impl openFileOutput fileName mode =
     \<lparr>logged = openFileOutput_steps fileName, forwarded = [(fileName, mode)],
      outcome = openFileOutput fileName mode\<rparr>"

text \<open>
  The three lifecycle hooks write one free-form line and call the original; they have no
  \<open>return\<close>, so a normal completion of the original hands back \<open>undefined\<close>.
\<close>

definition Activity_onCreate_impl :: "('b \<Rightarrow> js_error + 'r) \<Rightarrow> 'b \<Rightarrow> ('b, unit) hook_run" where
  "Activity_onCreate_impl onCreate bundle =
     \<lparr>logged = [''[Activity] onCreate called''], forwarded = [bundle],
      outcome = (case onCreate bundle of Inl e \<Rightarrow> Inl e | Inr r \<Rightarrow> Inr ())\<rparr>"

definition setupFileOperationButton_impl :: "(unit \<Rightarrow> js_error + 'r) \<Rightarrow> (unit, unit) hook_run" where
  "setupFileOperationButton_impl setupFileOperationButton =
     \<lparr>logged = [''[MainActivity] Setting up file operation button''], forwarded = [()],
      outcome = (case setupFileOperationButton () of Inl e \<Rightarrow> Inl e | Inr r \<Rightarrow> Inr ())\<rparr>"

definition onClick_impl :: "('b \<Rightarrow> js_error + 'r) \<Rightarrow> 'b \<Rightarrow> ('b, unit) hook_run" where
  "onClick_impl onClick view =
     \<lparr>logged = [''[MainActivity$1] Click event triggered''], forwarded = [view],
      outcome = (case onClick view of Inl e \<Rightarrow> Inl e | Inr r \<Rightarrow> Inr ())\<rparr>"

section \<open>The state of the script\<close>

text \<open>
  The hooks registered so far, the binding of the global identifier \<open>seenEvents\<close>, and the
  lines written with \<open>console.log\<close>. The native hooks read and write \<open>seenEvents\<close> as an
  object with string keys, but no statement of the script declares or assigns that
  identifier: \<open>None\<close> is the identifier without a binding, which is its state for as long as
  the script runs, \<open>Some seen\<close> an object bound to it.
\<close>

datatype target =
    File_init | FileOutputStream_init | FileInputStream_init | Context_openFileOutput
  | Activity_onCreate | MainActivity_setupFileOperationButton | MainActivity1_onClick
  | libc_socket | libc_connect | libc_send | libc_recv

record script_state =
  hooks :: "target list"
  seenEvents :: "(string \<rightharpoonup> bool) option"
  console :: "string list"

definition init_state :: script_state where
  "init_state = \<lparr>hooks = [], seenEvents = None, console = []\<rparr>"

text \<open>A statement either completes or throws; what it did to the state before throwing stays.\<close>

type_synonym step = "script_state \<Rightarrow> js_error option \<times> script_state"

definition console_log :: "string \<Rightarrow> step" where
  "console_log l st = (None, st\<lparr>console := console st @ [l]\<rparr>)"

definition throw :: "js_error \<Rightarrow> step" where
  "throw e st = (Some e, st)"

fun seqs :: "step list \<Rightarrow> step" where
  "seqs [] st = (None, st)"
| "seqs (s # ss) st = (case s st of (Some e, st') \<Rightarrow> (Some e, st') | (None, st') \<Rightarrow> seqs ss st')"

definition try_catch :: "step \<Rightarrow> (js_error \<Rightarrow> step) \<Rightarrow> step" where
  "try_catch body handler st =
     (case body st of (Some e, st') \<Rightarrow> handler e st' | (None, st') \<Rightarrow> (None, st'))"

text \<open>The text of an exception when it is concatenated to a string.\<close>

fun error_toString :: "js_error \<Rightarrow> string" where
  "error_toString (ReferenceError m) = ''ReferenceError: '' @ m"
| "error_toString (TypeError m) = ''TypeError: '' @ m"
| "error_toString (Error m) = ''Error: '' @ m"

section \<open>The native hooks\<close>

text \<open>
  \<open>args\<close> is the argument vector of the intercepted call, one pointer-sized word per
  position. The truth value of a property read: only a stored \<open>true\<close> is truthy, a missing
  property reads as \<open>undefined\<close>.
\<close>

definition js_truthy :: "bool option \<Rightarrow> bool" where
  "js_truthy v = (v = Some True)"

definition domainName :: "int \<Rightarrow> string" where
  "domainName domain =
     (if domain = 0 then ''AF_UNSPEC''
      else if domain = 1 then ''AF_UNIX''
      else if domain = 2 then ''AF_INET''
      else if domain = 10 then ''AF_INET6''
      else int_toString domain)"

definition typeName :: "int \<Rightarrow> string" where
  "typeName type =
     (if type = 1 then ''SOCK_STREAM''
      else if type = 2 then ''SOCK_DGRAM''
      else if type = 3 then ''SOCK_RAW''
      else int_toString type)"

definition socket_onEnter :: "(nat \<Rightarrow> 'a::len word) \<Rightarrow> step" where
  "socket_onEnter args st =
     (let domain = toInt32 (args 0); type = toInt32 (args 1) in
      (None, st\<lparr>console := console st @
         [''[Native] Creating socket: domain='' @ domainName domain @ '', type='' @ typeName type,
          ''{\"type\":\"api\",\"name\":\"libc.socket\",\"method\":\"native\",\"args\":{\"domain\":\"''
            @ domainName domain @ ''\",\"type\":\"'' @ typeName type @ ''\"}}'']\<rparr>))"

definition connect_onEnter :: "(nat \<Rightarrow> 'a::len word) \<Rightarrow> step" where
  "connect_onEnter args st =
     (let sockfd = toInt32 (args 0);
          eventId = ''connect_'' @ int_toString sockfd in
      case seenEvents st of
        None \<Rightarrow> (Some (ReferenceError ''seenEvents is not defined''), st)
      | Some seen \<Rightarrow>
          if \<not> js_truthy (seen eventId) then
            (None, st\<lparr>seenEvents := Some (seen(eventId \<mapsto> True)),
                      console := console st @
                        [''[Native] Connect called with sockfd: '' @ int_toString sockfd,
                         ''{\"type\":\"api\",\"name\":\"libc.connect\",\"method\":\"native\",\"args\":{\"sockfd\":\"''
                           @ int_toString sockfd @ ''\"}}'']\<rparr>)
          else (None, st))"

definition send_onEnter :: "(nat \<Rightarrow> 'a::len word) \<Rightarrow> step" where
  "send_onEnter args st =
     (let sockfd = toInt32 (args 0);
          dataSize = toInt32 (args 2);
          eventId = ''send_'' @ int_toString sockfd @ ''_'' @ int_toString dataSize in
      case seenEvents st of
        None \<Rightarrow> (Some (ReferenceError ''seenEvents is not defined''), st)
      | Some seen \<Rightarrow>
          if \<not> js_truthy (seen eventId) then
            (None, st\<lparr>seenEvents := Some (seen(eventId \<mapsto> True)),
                      console := console st @
                        [''[Native] Sending '' @ int_toString dataSize @ '' bytes on socket ''
                           @ int_toString sockfd,
                         ''{\"type\":\"api\",\"name\":\"libc.send\",\"method\":\"native\",\"args\":{\"sockfd\":\"''
                           @ int_toString sockfd @ ''\",\"size\":\"'' @ int_toString dataSize
                           @ ''\"}}'']\<rparr>)
          else (None, st))"

definition recv_onEnter :: "(nat \<Rightarrow> 'a::len word) \<Rightarrow> step" where
  "recv_onEnter args st =
     (let sockfd = toInt32 (args 0);
          bufferSize = toInt32 (args 2);
          eventId = ''recv_'' @ int_toString sockfd @ ''_'' @ int_toString bufferSize in
      case seenEvents st of
        None \<Rightarrow> (Some (ReferenceError ''seenEvents is not defined''), st)
      | Some seen \<Rightarrow>
          if \<not> js_truthy (seen eventId) then
            (None, st\<lparr>seenEvents := Some (seen(eventId \<mapsto> True)),
                      console := console st @
                        [''[Native] Receiving up to '' @ int_toString bufferSize
                           @ '' bytes on socket '' @ int_toString sockfd,
                         ''{\"type\":\"api\",\"name\":\"libc.recv\",\"method\":\"native\",\"args\":{\"sockfd\":\"''
                           @ int_toString sockfd @ ''\",\"size\":\"'' @ int_toString bufferSize
                           @ ''\"}}'']\<rparr>)
          else (None, st))"

section \<open>Interceptions over the life of the process\<close>

text \<open>
  One intercepted call of a hooked entry point, with what the host supplies to the hook:
  the outcome of the stack capture and the path for the \<open>java.io.File\<close> constructor, the
  arguments for the other managed methods, the argument vector for a native function
  (\<open>'p\<close> is the type of a pointer-sized argument).
\<close>

datatype 'p call =
    Call_File_init "js_error + DebugSymbol list" "string option"
  | Call_FileOutputStream_init "string option"
  | Call_FileInputStream_init "string option"
  | Call_openFileOutput "string option" int
  | Call_onCreate
  | Call_setupFileOperationButton
  | Call_onClick
  | Call_socket "nat \<Rightarrow> 'p"
  | Call_connect "nat \<Rightarrow> 'p"
  | Call_send "nat \<Rightarrow> 'p"
  | Call_recv "nat \<Rightarrow> 'p"

fun target_of :: "'p call \<Rightarrow> target" where
  "target_of (Call_File_init bt path) = File_init"
| "target_of (Call_FileOutputStream_init path) = FileOutputStream_init"
| "target_of (Call_FileInputStream_init path) = FileInputStream_init"
| "target_of (Call_openFileOutput fileName mode) = Context_openFileOutput"
| "target_of Call_onCreate = Activity_onCreate"
| "target_of Call_setupFileOperationButton = MainActivity_setupFileOperationButton"
| "target_of Call_onClick = MainActivity1_onClick"
| "target_of (Call_socket args) = libc_socket"
| "target_of (Call_connect args) = libc_connect"
| "target_of (Call_send args) = libc_send"
| "target_of (Call_recv args) = libc_recv"

text \<open>
  What the hook of a call does to the state of the script. A managed hook appends the
  lines of its steps (none when they throw); a native hook is its \<open>onEnter\<close> callback.
\<close>

definition append_lines :: "string list \<Rightarrow> step" where
  "append_lines ls st = (None, st\<lparr>console := console st @ ls\<rparr>)"

fun hook_body :: "('a::len word) call \<Rightarrow> step" where
  "hook_body (Call_File_init bt path) =
     (case File_init_steps bt path of Inl e \<Rightarrow> throw e | Inr ls \<Rightarrow> append_lines ls)"
| "hook_body (Call_FileOutputStream_init path) = append_lines (FileOutputStream_init_steps path)"
| "hook_body (Call_FileInputStream_init path) = append_lines (FileInputStream_init_steps path)"
| "hook_body (Call_openFileOutput fileName mode) = append_lines (openFileOutput_steps fileName)"
| "hook_body Call_onCreate = append_lines [''[Activity] onCreate called'']"
| "hook_body Call_setupFileOperationButton =
     append_lines [''[MainActivity] Setting up file operation button'']"
| "hook_body Call_onClick = append_lines [''[MainActivity$1] Click event triggered'']"
| "hook_body (Call_socket args) = socket_onEnter args"
| "hook_body (Call_connect args) = connect_onEnter args"
| "hook_body (Call_send args) = send_onEnter args"
| "hook_body (Call_recv args) = recv_onEnter args"

text \<open>
  The interception primitive runs the hook of a call only when a hook is registered for
  its target; an exception of the hook leaves the state the hook had reached.
\<close>

definition intercept :: "('a::len word) call \<Rightarrow> script_state \<Rightarrow> script_state" where
  "intercept c st = (if target_of c \<in> set (hooks st) then snd (hook_body c st) else st)"

fun run :: "('a::len word) call list \<Rightarrow> script_state \<Rightarrow> script_state" where
  "run [] st = st"
| "run (c # cs) st = run cs (intercept c st)"

section \<open>Loading the script: registration of the hooks\<close>

text \<open>
  What the running process offers. \<open>Java_use h cls\<close> is \<open>None\<close> when \<open>Java.use(cls)\<close>
  returns the class wrapper and \<open>Some e\<close> when it throws \<open>e\<close> (the class is absent);
  \<open>has_member h cls m\<close> says whether the wrapper has a member \<open>m\<close> (an absent member reads
  as \<open>undefined\<close>); \<open>findExportByName h lib name\<close> says whether the lookup returns an address
  rather than \<open>null\<close>.
\<close>

record host =
  Java_use :: "string \<Rightarrow> js_error option"
  has_member :: "string \<Rightarrow> string \<Rightarrow> bool"
  findExportByName :: "string \<Rightarrow> string \<Rightarrow> bool"

definition register :: "target \<Rightarrow> step" where
  "register t st = (None, st\<lparr>hooks := hooks st @ [t]\<rparr>)"

definition use_class :: "host \<Rightarrow> string \<Rightarrow> step" where
  "use_class h cls st = (Java_use h cls, st)"

text \<open>
  Assigning \<open>implementation\<close> on a member of a class wrapper: a property access on
  \<open>undefined\<close> throws when the member is absent. The message texts of the exceptions
  raised while loading are the engine's; only the prefix that the script itself writes
  before them is stated in the results below.
\<close>

definition set_implementation :: "host \<Rightarrow> string \<Rightarrow> string \<Rightarrow> target \<Rightarrow> step" where
  "set_implementation h cls m t =
     (if has_member h cls m then register t
      else throw (TypeError (''cannot read property of undefined: '' @ m)))"

text \<open>\<open>Interceptor.attach\<close> on the address of an export throws when the address is \<open>null\<close>.\<close>

definition attach_export :: "host \<Rightarrow> string \<Rightarrow> target \<Rightarrow> step" where
  "attach_export h symbol t =
     (if findExportByName h ''libc.so'' symbol then register t
      else throw (Error ''expected a pointer''))"

text \<open>The three \<open>try\<close> blocks of the script, each with its \<open>catch\<close>.\<close>

definition monitor_setupFileOperationButton :: "host \<Rightarrow> step" where
  "monitor_setupFileOperationButton h =
     try_catch
       (seqs [use_class h ''com.example.fridatestjavaapp.MainActivity'',
              set_implementation h ''com.example.fridatestjavaapp.MainActivity''
                ''setupFileOperationButton'' MainActivity_setupFileOperationButton])
       (\<lambda>e. console_log (''Could not monitor setupFileOperationButton: '' @ error_toString e))"

definition monitor_MainActivity1 :: "host \<Rightarrow> step" where
  "monitor_MainActivity1 h =
     try_catch
       (seqs [use_class h ''com.example.fridatestjavaapp.MainActivity$1'',
              set_implementation h ''com.example.fridatestjavaapp.MainActivity$1''
                ''onClick'' MainActivity1_onClick])
       (\<lambda>e. console_log (''Could not monitor MainActivity$1: '' @ error_toString e))"

definition native_network_monitoring :: "host \<Rightarrow> step" where
  "native_network_monitoring h =
     try_catch
       (seqs [attach_export h ''socket'' libc_socket,
              attach_export h ''connect'' libc_connect,
              attach_export h ''send'' libc_send,
              attach_export h ''recv'' libc_recv])
       (\<lambda>e. console_log (''Error setting up native network hooks: '' @ error_toString e))"

text \<open>The body of \<open>Java.perform\<close>, statement by statement.\<close>

definition script :: "host \<Rightarrow> step" where
  "script h = seqs
     [console_log ''[+] Frida script loaded'',
      use_class h ''java.io.File'',
      set_implementation h ''java.io.File'' ''$init'' File_init,
      use_class h ''java.io.FileOutputStream'',
      set_implementation h ''java.io.FileOutputStream'' ''$init'' FileOutputStream_init,
      use_class h ''java.io.FileInputStream'',
      set_implementation h ''java.io.FileInputStream'' ''$init'' FileInputStream_init,
      use_class h ''android.content.Context'',
      (\<lambda>st. if has_member h ''android.content.Context'' ''openFileOutput''
            then register Context_openFileOutput st else (None, st)),
      use_class h ''android.app.Activity'',
      set_implementation h ''android.app.Activity'' ''onCreate'' Activity_onCreate,
      monitor_setupFileOperationButton h,
      monitor_MainActivity1 h,
      console_log ''[+] Setting up native network monitoring'',
      native_network_monitoring h,
      console_log ''[+] Monitoring setup complete, waiting for operations...'']"

definition loaded :: "host \<Rightarrow> script_state" where
  "loaded h = snd (script h init_state)"

text \<open>A process in which every class, member and export the script names is present.\<close>

definition full_host :: host where
  "full_host =
     \<lparr>Java_use = (\<lambda>cls. None), has_member = (\<lambda>cls m. True), findExportByName = (\<lambda>lib name. True)\<rparr>"

text \<open>The same process without the export \<open>connect\<close> of libc.\<close>

definition host_without_connect :: host where
  "host_without_connect =
     full_host\<lparr>findExportByName := (\<lambda>lib name. \<not> (lib = ''libc.so'' \<and> name = ''connect''))\<rparr>"

text \<open>The same process without the class \<open>MainActivity$1\<close>.\<close>

definition host_without_MainActivity1 :: host where
  "host_without_MainActivity1 =
     full_host\<lparr>Java_use := (\<lambda>cls. if cls = ''com.example.fridatestjavaapp.MainActivity$1''
        then Some (Error ''java.lang.ClassNotFoundException'') else None)\<rparr>"

section \<open>Classes of calls and sample inputs\<close>

text \<open>
  A call of one of the four managed entry points whose hook writes a structured event
  line, the stack capture of the \<open>java.io.File\<close> constructor hook having returned its frames.
\<close>

fun monitored_managed_call :: "'p call \<Rightarrow> bool" where
  "monitored_managed_call (Call_File_init (Inr stack) path) = True"
| "monitored_managed_call (Call_FileOutputStream_init path) = True"
| "monitored_managed_call (Call_FileInputStream_init path) = True"
| "monitored_managed_call (Call_openFileOutput fileName mode) = True"
| "monitored_managed_call c = False"

fun is_socket_call :: "'p call \<Rightarrow> bool" where
  "is_socket_call (Call_socket args) = True"
| "is_socket_call c = False"

text \<open>An argument vector holding the given integers, on a 64-bit process.\<close>

definition argv :: "int list \<Rightarrow> nat \<Rightarrow> 64 word" where
  "argv vs i = (if i < length vs then word_of_int (vs ! i) else 0)"

text \<open>An original constructor that completes normally.\<close>

definition init_completes :: "string option \<Rightarrow> js_error + unit" where
  "init_completes path = Inr ()"

text \<open>A stack whose second frame belongs to the application.\<close>

definition sample_stack :: "DebugSymbol list" where
  "sample_stack =
     [DebugSymbol ''libart.so!art_quick_invoke_stub'',
      DebugSymbol ''base.odex!com.example.fridatestjavaapp.MainActivity.writeFile'',
      DebugSymbol ''libc.so!__start_thread'']"

text \<open>
  The structured event lines of the three deduplicating native hooks, by the values the
  deduplication key is built from: the descriptor for \<open>connect\<close>, the descriptor and the
  size argument for \<open>send\<close> and \<open>recv\<close>.
\<close>

definition connect_event :: "int \<Rightarrow> string" where
  "connect_event sockfd = event_line ''libc.connect'' ''native'' [(''sockfd'', int_toString sockfd)]"

definition send_event :: "int \<Rightarrow> int \<Rightarrow> string" where
  "send_event sockfd dataSize =
     event_line ''libc.send'' ''native''
       [(''sockfd'', int_toString sockfd), (''size'', int_toString dataSize)]"

definition recv_event :: "int \<Rightarrow> int \<Rightarrow> string" where
  "recv_event sockfd bufferSize =
     event_line ''libc.recv'' ''native''
       [(''sockfd'', int_toString sockfd), (''size'', int_toString bufferSize)]"

text \<open>
  Presence of what the script hooks without a guard of its own (the three stream classes,
  \<open>Context\<close> with its \<open>openFileOutput\<close>, \<open>Activity\<close>), and of one target hooked under its
  own \<open>try\<close>.
\<close>

definition core_present :: "host \<Rightarrow> bool" where
  "core_present h =
     (Java_use h ''java.io.File'' = None \<and> has_member h ''java.io.File'' ''$init'' \<and>
      Java_use h ''java.io.FileOutputStream'' = None \<and>
      has_member h ''java.io.FileOutputStream'' ''$init'' \<and>
      Java_use h ''java.io.FileInputStream'' = None \<and>
      has_member h ''java.io.FileInputStream'' ''$init'' \<and>
      Java_use h ''android.content.Context'' = None \<and>
      has_member h ''android.content.Context'' ''openFileOutput'' \<and>
      Java_use h ''android.app.Activity'' = None \<and>
      has_member h ''android.app.Activity'' ''onCreate'')"

definition app_target_present :: "host \<Rightarrow> string \<Rightarrow> string \<Rightarrow> bool" where
  "app_target_present h cls m = (Java_use h cls = None \<and> has_member h cls m)"

text \<open>
  The native targets of a list of exports that get attached: those before the first
  export that is absent.
\<close>

fun attached_exports :: "host \<Rightarrow> (string \<times> target) list \<Rightarrow> target list" where
  "attached_exports h [] = []"
| "attached_exports h ((name, t) # rest) =
     (if findExportByName h ''libc.so'' name then t # attached_exports h rest else [])"

definition native_exports :: "(string \<times> target) list" where
  "native_exports =
     [(''socket'', libc_socket), (''connect'', libc_connect), (''send'', libc_send),
      (''recv'', libc_recv)]"

text \<open>
  A structured event line of one of the three deduplicating native hooks, and the
  relation between an event identifier (the key stored in \<open>seenEvents\<close>) and the
  structured event line written under it.
\<close>

definition is_dedup_event :: "string \<Rightarrow> bool" where
  "is_dedup_event l =
     (is_event_of ''libc.connect'' l \<or> is_event_of ''libc.send'' l \<or> is_event_of ''libc.recv'' l)"

inductive dedup_line :: "string \<Rightarrow> string \<Rightarrow> bool" where
  connect: "dedup_line (''connect_'' @ int_toString sockfd) (connect_event sockfd)"
| send: "dedup_line (''send_'' @ int_toString sockfd @ ''_'' @ int_toString dataSize)
           (send_event sockfd dataSize)"
| recv: "dedup_line (''recv_'' @ int_toString sockfd @ ''_'' @ int_toString bufferSize)
           (recv_event sockfd bufferSize)"

text \<open>A statement that leaves the binding of \<open>seenEvents\<close> as it found it.\<close>

definition keeps_seenEvents :: "step \<Rightarrow> bool" where
  "keeps_seenEvents s = (\<forall>st. seenEvents (snd (s st)) = seenEvents st)"

section \<open>Decimal strings lose nothing\<close>

lemma digit_cases:
  "d < 10 \<Longrightarrow>
     d = 0 \<or> d = 1 \<or> d = 2 \<or> d = 3 \<or> d = 4 \<or> d = 5 \<or> d = 6 \<or> d = 7 \<or> d = 8 \<or> d = (9::nat)"
  by arith

lemma digit_val_digit_char: "d < 10 \<Longrightarrow> digit_val (digit_char d) = d"
  using digit_cases [of d] by (auto simp: digit_val_def digit_char_def)

lemma digit_char_in: "d < 10 \<Longrightarrow> digit_char d \<in> set ''0123456789''"
  using digit_cases [of d] by (auto simp: digit_char_def)

lemma nat_ofString_snoc: "nat_ofString (s @ [c]) = 10 * nat_ofString s + digit_val c"
  by (simp add: nat_ofString_def)

lemma nat_ofString_toString: "nat_ofString (nat_toString n) = n"
proof (induction n rule: nat_toString.induct)
  case (1 n)
  show ?case
  proof (cases "n < 10")
    case True
    then show ?thesis
      by (simp add: nat_toString.simps [of n] nat_ofString_def digit_val_digit_char)
  next
    case False
    with "1.IH" show ?thesis
      by (simp add: nat_toString.simps [of n] nat_ofString_snoc digit_val_digit_char)
  qed
qed

lemma nat_toString_digits: "set (nat_toString n) \<subseteq> set ''0123456789''"
proof (induction n rule: nat_toString.induct)
  case (1 n)
  show ?case
  proof (cases "n < 10")
    case True
    then show ?thesis
      using digit_char_in [of n] by (simp add: nat_toString.simps [of n])
  next
    case False
    with "1.IH" show ?thesis
      using digit_char_in [of "n mod 10"] by (simp add: nat_toString.simps [of n])
  qed
qed

lemma nat_toString_nonempty: "nat_toString n \<noteq> []"
  by (subst nat_toString.simps) simp

lemma nat_toString_hd_not_minus: "hd (nat_toString n) \<noteq> CHR ''-''"
proof -
  have "hd (nat_toString n) \<in> set (nat_toString n)"
    by (simp add: nat_toString_nonempty)
  with nat_toString_digits [of n] show ?thesis by auto
qed

lemma int_ofString_toString: "int_ofString (int_toString i) = i"
proof (cases "i < 0")
  case True
  then show ?thesis
    by (simp add: int_ofString_def int_toString_def nat_ofString_toString)
next
  case False
  obtain c cs where s: "nat_toString (nat i) = c # cs"
    using nat_toString_nonempty [of "nat i"] by (cases "nat_toString (nat i)") auto
  with nat_toString_hd_not_minus [of "nat i"] have c: "c \<noteq> CHR ''-''" by simp
  have "nat_ofString (c # cs) = nat i"
    using nat_ofString_toString [of "nat i"] s by simp
  with False s c show ?thesis
    by (simp add: int_ofString_def int_toString_def)
qed

lemma int_toString_inj: "int_toString a = int_toString b \<Longrightarrow> a = b"
  by (metis int_ofString_toString)

lemma nat_toString_avoids: "c \<notin> set ''0123456789'' \<Longrightarrow> c \<notin> set (nat_toString n)"
  using nat_toString_digits [of n] by blast

lemma int_toString_no_quote: "CHR 0x22 \<notin> set (int_toString i)"
  by (simp add: int_toString_def nat_toString_avoids)

lemma int_toString_no_underscore: "CHR ''_'' \<notin> set (int_toString i)"
  by (simp add: int_toString_def nat_toString_avoids)

lemma split_at_char:
  "c \<notin> set x \<Longrightarrow> c \<notin> set y \<Longrightarrow> x @ c # r = y @ c # r' \<Longrightarrow> x = y \<and> r = r'"
proof (induction x arbitrary: y)
  case Nil
  then show ?case by (cases y) auto
next
  case (Cons a x)
  then show ?case by (cases y) auto
qed

section \<open>The resolver loop finds the first application frame\<close>

lemma indexOf_from_sublist: "0 \<le> indexOf_from k s needle \<longleftrightarrow> sublist needle s"
  by (induction s arbitrary: k) (auto simp: sublist_Cons_right)

lemma indexOf_sublist: "0 \<le> indexOf s needle \<longleftrightarrow> sublist needle s"
  by (simp add: indexOf_def indexOf_from_sublist)

lemma scan_frames_find:
  "scan_frames stack i callSite =
     (case find is_app_frame (drop i stack) of Some f \<Rightarrow> symbol_toString f | None \<Rightarrow> callSite)"
proof (induction stack i callSite rule: scan_frames.induct)
  case (1 stack i callSite)
  show ?case
  proof (cases "i < length stack")
    case False
    then show ?thesis by (simp add: scan_frames.simps)
  next
    case True
    then have d: "drop i stack = stack ! i # drop (Suc i) stack"
      by (simp add: Cons_nth_drop_Suc)
    show ?thesis
    proof (cases "is_app_frame (stack ! i)")
      case True
      with \<open>i < length stack\<close> d show ?thesis
        by (simp add: scan_frames.simps [of stack i] truthy_object_def indexOf_sublist
            is_app_frame_def)
    next
      case False
      with \<open>i < length stack\<close> d "1.IH" show ?thesis
        by (simp add: scan_frames.simps [of stack i] truthy_object_def indexOf_sublist
            is_app_frame_def)
    qed
  qed
qed

lemma app_frame_nonempty: "is_app_frame f \<Longrightarrow> symbol_toString f \<noteq> []"
  by (auto simp: is_app_frame_def)

lemma resolve_callSite_spec: "stack \<noteq> [] \<Longrightarrow> resolve_callSite stack = spec_callSite stack"
proof -
  assume ne: "stack \<noteq> []"
  show ?thesis
  proof (cases "find is_app_frame stack")
    case None
    with ne show ?thesis
      by (simp add: resolve_callSite_def spec_callSite_def scan_frames_find hd_conv_nth)
  next
    case (Some f)
    then have "is_app_frame f" by (auto simp: find_Some_iff)
    then have "symbol_toString f \<noteq> []" by (rule app_frame_nonempty)
    with Some show ?thesis
      by (simp add: resolve_callSite_def spec_callSite_def scan_frames_find)
  qed
qed

lemma File_init_steps_line:
  "File_init_steps (Inr stack) path =
     Inr [''[File] Creating file: '' @ js_str path,
          event_line ''java.io.File.<init>'' (resolve_callSite stack) [(''path'', js_str path)]]"
  by (simp add: File_init_steps_def shouldLogApi_def monitoredApis_def event_line_def)

section \<open>Call-site resolution and the method field\<close>

text \<open>
  Claim C5, as amended. When the captured frame sequence is empty, call-site resolution
  raises nothing and yields the empty string: the loop does not run and the fallback to
  the first frame is guarded by \<open>stack.length > 0\<close>, so \<open>callSite\<close> keeps its initial value
  and the structured event line carries an empty \<open>method\<close> field.
\<close>

theorem empty_stack_callSite_empty:
  "resolve_callSite [] = [] \<and>
   File_init_steps (Inr []) path =
     Inr [''[File] Creating file: '' @ js_str path,
          event_line ''java.io.File.<init>'' [] [(''path'', js_str path)]]"
  by (simp add: File_init_steps_line resolve_callSite_def scan_frames.simps)

text \<open>The amended claim C5 at a null path.\<close>

theorem empty_stack_callSite_empty_witness:
  "resolve_callSite [] = [] \<and>
   File_init_steps (Inr []) None =
     Inr [''[File] Creating file: null'',
          event_line ''java.io.File.<init>'' [] [(''path'', ''null'')]]"
  using empty_stack_callSite_empty [of None] by (simp add: js_str_def)

text \<open>
  Claim C5 as stated fails: on an empty frame sequence the resolved call site is not the
  text "unknown", and the emitted \<open>method\<close> field is empty.
\<close>

theorem empty_stack_callSite_counterexample:
  "resolve_callSite [] \<noteq> ''unknown'' \<and>
   File_init_steps (Inr []) (Some ''/data/a.txt'') =
     Inr [''[File] Creating file: /data/a.txt'',
          event_line ''java.io.File.<init>'' [] [(''path'', ''/data/a.txt'')]]"
  by (simp add: File_init_steps_line resolve_callSite_def scan_frames.simps js_str_def)

text \<open>
  Claim C6. For every non-empty captured frame sequence, call-site resolution returns the
  description of the first frame, scanning from the most recent one, that matches the
  application-namespace predicate (its text contains "com.example"), and the description
  of the first frame of the sequence when no frame matches; the structured event line of
  the \<open>java.io.File\<close> constructor hook carries that description as its \<open>method\<close> field.
\<close>

theorem callSite_first_app_frame:
  assumes "stack \<noteq> []"
  shows "resolve_callSite stack = spec_callSite stack \<and>
         File_init_steps (Inr stack) path =
           Inr [''[File] Creating file: '' @ js_str path,
                event_line ''java.io.File.<init>'' (spec_callSite stack) [(''path'', js_str path)]]"
  using assms by (simp add: File_init_steps_line resolve_callSite_spec)

lemma spec_callSite_sample:
  "spec_callSite sample_stack = ''base.odex!com.example.fridatestjavaapp.MainActivity.writeFile''"
  by code_simp

text \<open>
  Claim C6 on a stack whose most recent frame is a runtime frame and whose second frame
  is an application frame: the \<open>method\<close> field is the application frame's description.
\<close>

theorem callSite_first_app_frame_witness:
  "sample_stack \<noteq> [] \<and>
   resolve_callSite sample_stack = ''base.odex!com.example.fridatestjavaapp.MainActivity.writeFile'' \<and>
   File_init_steps (Inr sample_stack) (Some ''/data/a.txt'') =
     Inr [''[File] Creating file: /data/a.txt'',
          event_line ''java.io.File.<init>''
            ''base.odex!com.example.fridatestjavaapp.MainActivity.writeFile''
            [(''path'', ''/data/a.txt'')]]"
proof -
  have ne: "sample_stack \<noteq> []" by (simp add: sample_stack_def)
  show ?thesis
    using ne callSite_first_app_frame [OF ne, of "Some ''/data/a.txt''"]
    by (simp add: spec_callSite_sample js_str_def)
qed

text \<open>
  Claim C10. The hooks of the \<open>java.io.FileOutputStream\<close> and \<open>java.io.FileInputStream\<close>
  constructors and of \<open>android.content.Context.openFileOutput\<close> write the constant
  "unknown" as the \<open>method\<close> field on every invocation: they take no captured stack at all.
  Only the \<open>java.io.File\<close> constructor hook resolves a call site.
\<close>

theorem constant_unknown_method:
  "logged (FileOutputStream_init_impl init path) =
     [''[FileOutputStream] Opening file output stream: '' @ js_str path,
      event_line ''java.io.FileOutputStream.<init>'' ''unknown'' [(''path'', js_str path)]] \<and>
   logged (FileInputStream_init_impl init path) =
     [''[FileInputStream] Opening file input stream: '' @ js_str path,
      event_line ''java.io.FileInputStream.<init>'' ''unknown'' [(''path'', js_str path)]] \<and>
   logged (openFileOutput_impl openFileOutput fileName mode) =
     [''[Context] Opening file output: '' @ js_str fileName,
      event_line ''android.content.Context.openFileOutput'' ''unknown''
        [(''fileName'', js_str fileName)]] \<and>
   logged (File_init_impl (Inr stack) init path) =
     [''[File] Creating file: '' @ js_str path,
      event_line ''java.io.File.<init>'' (resolve_callSite stack) [(''path'', js_str path)]]"
  by (simp add: FileOutputStream_init_impl_def FileOutputStream_init_steps_def
      FileInputStream_init_impl_def FileInputStream_init_steps_def
      openFileOutput_impl_def openFileOutput_steps_def File_init_impl_def File_init_steps_line
      event_line_def)

section \<open>Transparency of the managed hooks\<close>

text \<open>
  Claim C1, as amended. When the steps before the forwarding raise no exception, each
  managed hook invokes the original implementation exactly once, with the arguments it
  received, and hands back the original's outcome, value or exception, unchanged. No hook
  catches an exception: when the stack capture of the \<open>java.io.File\<close> constructor hook
  raises, that exception is what the caller sees and the original is not invoked.
\<close>

theorem hooks_forward_once:
  "forwarded (File_init_impl (Inr stack) init path) = [path] \<and>
   outcome (File_init_impl (Inr stack) init path) = init path \<and>
   forwarded (FileOutputStream_init_impl init path) = [path] \<and>
   outcome (FileOutputStream_init_impl init path) = init path \<and>
   forwarded (FileInputStream_init_impl init path) = [path] \<and>
   outcome (FileInputStream_init_impl init path) = init path \<and>
   forwarded (openFileOutput_impl openFileOutput fileName mode) = [(fileName, mode)] \<and>
   outcome (openFileOutput_impl openFileOutput fileName mode) = openFileOutput fileName mode \<and>
   File_init_impl (Inl e) init path = \<lparr>logged = [], forwarded = [], outcome = Inl e\<rparr>"
  by (simp add: FileOutputStream_init_impl_def FileInputStream_init_impl_def
      openFileOutput_impl_def File_init_impl_def File_init_steps_line)
     (simp add: File_init_steps_def shouldLogApi_def monitoredApis_def)

text \<open>
  Claim C1 as stated fails: with a stack capture that raises, the \<open>java.io.File\<close>
  constructor hook never invokes the original constructor and its caller sees the
  exception of the capture, where the original would have completed normally.
\<close>

theorem transparency_counterexample:
  "forwarded (File_init_impl (Inl (Error ''backtrace failed'')) init_completes (Some ''/data/a.txt'')) = [] \<and>
   outcome (File_init_impl (Inl (Error ''backtrace failed'')) init_completes (Some ''/data/a.txt''))
     = Inl (Error ''backtrace failed'') \<and>
   init_completes (Some ''/data/a.txt'') = Inr ()"
  by (simp add: File_init_impl_def File_init_steps_def shouldLogApi_def monitoredApis_def init_completes_def)

section \<open>The socket hook\<close>

text \<open>
  Claim C9. The socket hook names the domains 0, 1, 2 and 10 "AF_UNSPEC", "AF_UNIX",
  "AF_INET" and "AF_INET6" and the types 1, 2 and 3 "SOCK_STREAM", "SOCK_DGRAM" and
  "SOCK_RAW"; every other value is written as its decimal string, from which the value
  can be read back. The hook raises nothing and writes its structured event line on
  every call, in every state of the script.
\<close>

theorem socket_names:
  fixes args :: "nat \<Rightarrow> 'a::len word"
  shows
  "domainName 0 = ''AF_UNSPEC'' \<and> domainName 1 = ''AF_UNIX'' \<and> domainName 2 = ''AF_INET'' \<and>
   domainName 10 = ''AF_INET6'' \<and>
   (d \<notin> {0, 1, 2, 10} \<longrightarrow> domainName d = int_toString d \<and> int_ofString (domainName d) = d) \<and>
   typeName 1 = ''SOCK_STREAM'' \<and> typeName 2 = ''SOCK_DGRAM'' \<and> typeName 3 = ''SOCK_RAW'' \<and>
   (t \<notin> {1, 2, 3} \<longrightarrow> typeName t = int_toString t \<and> int_ofString (typeName t) = t) \<and>
   hook_body (Call_socket args) st =
     (None, st\<lparr>console := console st @
        [''[Native] Creating socket: domain='' @ domainName (toInt32 (args 0)) @ '', type=''
           @ typeName (toInt32 (args 1)),
         event_line ''libc.socket'' ''native''
           [(''domain'', domainName (toInt32 (args 0))), (''type'', typeName (toInt32 (args 1)))]]\<rparr>)"
proof -
  have dn: "domainName 0 = ''AF_UNSPEC'' \<and> domainName 1 = ''AF_UNIX'' \<and> domainName 2 = ''AF_INET'' \<and>
      domainName 10 = ''AF_INET6'' \<and>
      (d \<notin> {0, 1, 2, 10} \<longrightarrow> domainName d = int_toString d \<and> int_ofString (domainName d) = d)"
    by (simp add: domainName_def int_ofString_toString)
  have tn: "typeName 1 = ''SOCK_STREAM'' \<and> typeName 2 = ''SOCK_DGRAM'' \<and> typeName 3 = ''SOCK_RAW'' \<and>
      (t \<notin> {1, 2, 3} \<longrightarrow> typeName t = int_toString t \<and> int_ofString (typeName t) = t)"
    by (simp add: typeName_def int_ofString_toString)
  have hb: "hook_body (Call_socket args) st =
     (None, st\<lparr>console := console st @
        [''[Native] Creating socket: domain='' @ domainName (toInt32 (args 0)) @ '', type=''
           @ typeName (toInt32 (args 1)),
         event_line ''libc.socket'' ''native''
           [(''domain'', domainName (toInt32 (args 0))), (''type'', typeName (toInt32 (args 1)))]]\<rparr>)"
    by (simp add: socket_onEnter_def event_line_def Let_def)
  from dn tn hb show ?thesis by blast
qed

lemma toInt32_argv0: "toInt32 (argv [7, 5] 0) = 7"
  by (simp add: argv_def toInt32_def)

lemma toInt32_argv1: "toInt32 (argv [7, 5] 1) = 5"
  by (simp add: argv_def toInt32_def)

lemma int_toString_7: "int_toString 7 = ''7''"
  by (simp add: int_toString_def nat_toString.simps digit_char_def)

lemma int_toString_5: "int_toString 5 = ''5''"
  by (simp add: int_toString_def nat_toString.simps digit_char_def)

text \<open>Claim C9 at domain 7 and type 5, neither of which has a name.\<close>

theorem socket_names_witness:
  "(7::int) \<notin> {0, 1, 2, 10} \<and> (5::int) \<notin> {1, 2, 3} \<and> domainName 7 = ''7'' \<and> typeName 5 = ''5'' \<and>
   hook_body (Call_socket (argv [7, 5])) init_state =
     (None, init_state\<lparr>console :=
        [''[Native] Creating socket: domain=7, type=5'',
         event_line ''libc.socket'' ''native'' [(''domain'', ''7''), (''type'', ''5'')]]\<rparr>)"
proof -
  note t = socket_names [of 7 5 "argv [7, 5]" init_state]
  have d: "domainName 7 = ''7''" using t by (simp add: int_toString_7)
  have ty: "typeName 5 = ''5''" using t by (simp add: int_toString_5)
  have c: "console init_state = []" by (simp add: init_state_def)
  from t have "hook_body (Call_socket (argv [7, 5])) init_state =
     (None, init_state\<lparr>console := console init_state @
        [''[Native] Creating socket: domain='' @ domainName (toInt32 (argv [7, 5] 0)) @ '', type=''
           @ typeName (toInt32 (argv [7, 5] 1)),
         event_line ''libc.socket'' ''native''
           [(''domain'', domainName (toInt32 (argv [7, 5] 0))), (''type'', typeName (toInt32 (argv [7, 5] 1)))]]\<rparr>)"
    by blast
  then show ?thesis
    unfolding toInt32_argv0 toInt32_argv1 d ty c by simp
qed

section \<open>Interceptions: what each hook does to the state\<close>

lemma hooks_intercept [simp]: "hooks (intercept c st) = hooks st"
  by (cases c)
     (auto simp: intercept_def append_lines_def throw_def socket_onEnter_def connect_onEnter_def
        send_onEnter_def recv_onEnter_def Let_def split: sum.splits option.splits)

lemma hooks_run [simp]: "hooks (run calls st) = hooks st"
  by (induction calls arbitrary: st) simp_all

lemma managed_intercept_events:
  assumes "monitored_managed_call c" and "target_of c \<in> set (hooks st)"
  shows "length (filter is_event_line (console (intercept c st)))
           = Suc (length (filter is_event_line (console st)))"
proof (cases c)
  case (Call_File_init bt path)
  with assms(1) obtain stack where "bt = Inr stack" by (cases bt) auto
  with Call_File_init assms(2) show ?thesis
    by (simp add: intercept_def File_init_steps_line append_lines_def is_event_line_def
        event_line_def)
next
  case (Call_FileOutputStream_init path)
  with assms(2) show ?thesis
    by (simp add: intercept_def FileOutputStream_init_steps_def append_lines_def is_event_line_def)
next
  case (Call_FileInputStream_init path)
  with assms(2) show ?thesis
    by (simp add: intercept_def FileInputStream_init_steps_def append_lines_def is_event_line_def)
next
  case (Call_openFileOutput fileName mode)
  with assms(2) show ?thesis
    by (simp add: intercept_def openFileOutput_steps_def append_lines_def is_event_line_def)
qed (use assms(1) in simp_all)

lemma monitored_target:
  "monitored_managed_call c \<Longrightarrow>
     target_of c \<in> {File_init, FileOutputStream_init, FileInputStream_init, Context_openFileOutput}"
  by (cases c) auto


lemma hooks_loaded_full:
  "hooks (loaded full_host) =
     [File_init, FileOutputStream_init, FileInputStream_init, Context_openFileOutput,
      Activity_onCreate, MainActivity_setupFileOperationButton, MainActivity1_onClick,
      libc_socket, libc_connect, libc_send, libc_recv]"
  by (simp add: loaded_def script_def full_host_def init_state_def console_log_def
      use_class_def set_implementation_def register_def try_catch_def attach_export_def
      monitor_setupFileOperationButton_def monitor_MainActivity1_def
      native_network_monitoring_def)

lemma console_loaded_full:
  "console (loaded full_host) =
     [''[+] Frida script loaded'', ''[+] Setting up native network monitoring'',
      ''[+] Monitoring setup complete, waiting for operations...'']"
  by (simp add: loaded_def script_def full_host_def init_state_def console_log_def
      use_class_def set_implementation_def register_def try_catch_def attach_export_def
      monitor_setupFileOperationButton_def monitor_MainActivity1_def
      native_network_monitoring_def)

lemma seenEvents_loaded_full: "seenEvents (loaded full_host) = None"
  by (simp add: loaded_def script_def full_host_def init_state_def console_log_def
      use_class_def set_implementation_def register_def try_catch_def attach_export_def
      monitor_setupFileOperationButton_def monitor_MainActivity1_def
      native_network_monitoring_def)

lemma connect_event_inj: "connect_event a = connect_event b \<Longrightarrow> a = b"
  by (simp add: connect_event_def event_line_def int_toString_inj)

lemma sized_args_inj:
  assumes "int_toString a @ ''\",\"size\":\"'' @ int_toString b @ ''\"}}''
         = int_toString a' @ ''\",\"size\":\"'' @ int_toString b' @ ''\"}}''"
  shows "a = a' \<and> b = b'"
proof -
  from assms have "int_toString a @ CHR 0x22 # ('',\"size\":\"'' @ int_toString b @ ''\"}}'')
         = int_toString a' @ CHR 0x22 # ('',\"size\":\"'' @ int_toString b' @ ''\"}}'')"
    by simp
  from split_at_char [OF int_toString_no_quote int_toString_no_quote this]
  have "int_toString a = int_toString a'" and "int_toString b = int_toString b'"
    by simp_all
  then show ?thesis by (simp add: int_toString_inj)
qed

lemma send_event_inj: "send_event a b = send_event a' b' \<Longrightarrow> a = a' \<and> b = b'"
  by (rule sized_args_inj) (simp add: send_event_def event_line_def)

lemma recv_event_inj: "recv_event a b = recv_event a' b' \<Longrightarrow> a = a' \<and> b = b'"
  by (rule sized_args_inj) (simp add: recv_event_def event_line_def)

lemma intercept_connect:
  "intercept (Call_connect args) st =
     (if libc_connect \<in> set (hooks st) then
        (case seenEvents st of
           None \<Rightarrow> st
         | Some seen \<Rightarrow>
             if seen (''connect_'' @ int_toString (toInt32 (args 0))) = Some True then st
             else st\<lparr>seenEvents := Some (seen(''connect_'' @ int_toString (toInt32 (args 0)) \<mapsto> True)),
                     console := console st @
                       [''[Native] Connect called with sockfd: '' @ int_toString (toInt32 (args 0)),
                        connect_event (toInt32 (args 0))]\<rparr>)
      else st)"
  by (simp add: intercept_def connect_onEnter_def Let_def js_truthy_def connect_event_def
      event_line_def split: option.splits)

lemma intercept_send:
  "intercept (Call_send args) st =
     (if libc_send \<in> set (hooks st) then
        (case seenEvents st of
           None \<Rightarrow> st
         | Some seen \<Rightarrow>
             if seen (''send_'' @ int_toString (toInt32 (args 0)) @ ''_''
                        @ int_toString (toInt32 (args 2))) = Some True then st
             else st\<lparr>seenEvents := Some (seen(''send_'' @ int_toString (toInt32 (args 0)) @ ''_''
                        @ int_toString (toInt32 (args 2)) \<mapsto> True)),
                     console := console st @
                       [''[Native] Sending '' @ int_toString (toInt32 (args 2))
                          @ '' bytes on socket '' @ int_toString (toInt32 (args 0)),
                        send_event (toInt32 (args 0)) (toInt32 (args 2))]\<rparr>)
      else st)"
  by (simp add: intercept_def send_onEnter_def Let_def js_truthy_def send_event_def
      event_line_def split: option.splits)

lemma intercept_recv:
  "intercept (Call_recv args) st =
     (if libc_recv \<in> set (hooks st) then
        (case seenEvents st of
           None \<Rightarrow> st
         | Some seen \<Rightarrow>
             if seen (''recv_'' @ int_toString (toInt32 (args 0)) @ ''_''
                        @ int_toString (toInt32 (args 2))) = Some True then st
             else st\<lparr>seenEvents := Some (seen(''recv_'' @ int_toString (toInt32 (args 0)) @ ''_''
                        @ int_toString (toInt32 (args 2)) \<mapsto> True)),
                     console := console st @
                       [''[Native] Receiving up to '' @ int_toString (toInt32 (args 2))
                          @ '' bytes on socket '' @ int_toString (toInt32 (args 0)),
                        recv_event (toInt32 (args 0)) (toInt32 (args 2))]\<rparr>)
      else st)"
  by (simp add: intercept_def recv_onEnter_def Let_def js_truthy_def recv_event_def
      event_line_def split: option.splits)

lemma intercept_socket:
  "intercept (Call_socket args) st =
     (if libc_socket \<in> set (hooks st) then
        st\<lparr>console := console st @
          [''[Native] Creating socket: domain='' @ domainName (toInt32 (args 0)) @ '', type=''
             @ typeName (toInt32 (args 1)),
           event_line ''libc.socket'' ''native''
             [(''domain'', domainName (toInt32 (args 0))), (''type'', typeName (toInt32 (args 1)))]]\<rparr>
      else st)"
  by (simp add: intercept_def socket_onEnter_def Let_def event_line_def)

text \<open>The lines a hook other than the three deduplicating ones writes.\<close>

lemma intercept_other:
  assumes "target_of c \<notin> {libc_connect, libc_send, libc_recv}"
  shows "seenEvents (intercept c st) = seenEvents st \<and>
         (\<exists>ls. console (intercept c st) = console st @ ls \<and>
               (\<forall>l \<in> set ls. \<not> is_event_of ''libc.connect'' l \<and> \<not> is_event_of ''libc.send'' l
                                \<and> \<not> is_event_of ''libc.recv'' l))"
proof (cases c)
  case (Call_File_init bt path)
  show ?thesis
  proof (cases bt)
    case (Inl e)
    with Call_File_init show ?thesis
      by (simp add: intercept_def File_init_steps_def throw_def shouldLogApi_def monitoredApis_def)
  next
    case (Inr stack)
    with Call_File_init show ?thesis
      by (simp add: intercept_def File_init_steps_line append_lines_def is_event_of_def
          event_line_def)
  qed
next
  case (Call_FileOutputStream_init path)
  then show ?thesis
    by (simp add: intercept_def FileOutputStream_init_steps_def append_lines_def is_event_of_def)
next
  case (Call_FileInputStream_init path)
  then show ?thesis
    by (simp add: intercept_def FileInputStream_init_steps_def append_lines_def is_event_of_def)
next
  case (Call_openFileOutput fileName mode)
  then show ?thesis
    by (simp add: intercept_def openFileOutput_steps_def append_lines_def is_event_of_def)
next
  case Call_onCreate
  then show ?thesis by (simp add: intercept_def append_lines_def is_event_of_def)
next
  case Call_setupFileOperationButton
  then show ?thesis by (simp add: intercept_def append_lines_def is_event_of_def)
next
  case Call_onClick
  then show ?thesis by (simp add: intercept_def append_lines_def is_event_of_def)
next
  case (Call_socket args)
  then show ?thesis by (simp add: intercept_socket is_event_of_def event_line_def)
qed (use assms in simp_all)

section \<open>Deduplication by event identifier\<close>

lemma dedup_line_is_event: "dedup_line k e \<Longrightarrow> is_dedup_event e"
  by (induction rule: dedup_line.induct)
     (simp_all add: is_dedup_event_def is_event_of_def connect_event_def send_event_def
        recv_event_def event_line_def)

lemma dedup_line_is_event_line: "dedup_line k e \<Longrightarrow> is_event_line e"
  by (induction rule: dedup_line.induct)
     (simp_all add: is_event_line_def connect_event_def send_event_def
        recv_event_def event_line_def)

lemma dedup_line_key:
  assumes "dedup_line k e" and "dedup_line k' e"
  shows "k = k'"
  using assms
proof (induction rule: dedup_line.induct)
  case (connect sockfd)
  from connect show ?case
  proof (cases rule: dedup_line.cases)
    case (connect fd')
    then show ?thesis using connect_event_inj by blast
  next
    case (send fd' n')
    then show ?thesis by (simp add: connect_event_def send_event_def event_line_def)
  next
    case (recv fd' n')
    then show ?thesis by (simp add: connect_event_def recv_event_def event_line_def)
  qed
next
  case (send sockfd dataSize)
  from send show ?case
  proof (cases rule: dedup_line.cases)
    case (connect fd')
    then show ?thesis by (simp add: connect_event_def send_event_def event_line_def)
  next
    case (send fd' n')
    then show ?thesis using send_event_inj by blast
  next
    case (recv fd' n')
    then show ?thesis by (simp add: send_event_def recv_event_def event_line_def)
  qed
next
  case (recv sockfd bufferSize)
  from recv show ?case
  proof (cases rule: dedup_line.cases)
    case (connect fd')
    then show ?thesis by (simp add: connect_event_def recv_event_def event_line_def)
  next
    case (send fd' n')
    then show ?thesis by (simp add: send_event_def recv_event_def event_line_def)
  next
    case (recv fd' n')
    then show ?thesis using recv_event_inj by blast
  qed
qed

lemma intercept_shape:
  "(seenEvents (intercept c st) = seenEvents st \<and>
    (\<exists>ls. console (intercept c st) = console st @ ls \<and> (\<forall>l \<in> set ls. \<not> is_dedup_event l)))
   \<or>
   (\<exists>seen k d e. seenEvents st = Some seen \<and> seen k \<noteq> Some True \<and> dedup_line k e \<and>
       \<not> is_dedup_event d \<and>
       seenEvents (intercept c st) = Some (seen(k \<mapsto> True)) \<and>
       console (intercept c st) = console st @ [d, e])"
proof (cases "target_of c \<in> {libc_connect, libc_send, libc_recv}")
  case False
  with intercept_other [of c st] show ?thesis
    by (auto simp: is_dedup_event_def)
next
  case True
  then consider (connect) args where "c = Call_connect args"
    | (send) args where "c = Call_send args"
    | (recv) args where "c = Call_recv args"
    by (cases c) auto
  then show ?thesis
  proof cases
    case connect
    show ?thesis
    proof (cases "libc_connect \<in> set (hooks st) \<and> (\<exists>seen. seenEvents st = Some seen \<and>
              seen (''connect_'' @ int_toString (toInt32 (args 0))) \<noteq> Some True)")
      case False
      then have "intercept c st = st"
        by (auto simp: connect intercept_connect split: option.splits)
      then show ?thesis by simp
    next
      case True
      then obtain seen where s: "seenEvents st = Some seen"
        "seen (''connect_'' @ int_toString (toInt32 (args 0))) \<noteq> Some True" by blast
      have nd: "\<not> is_dedup_event (''[Native] Connect called with sockfd: '' @ int_toString (toInt32 (args 0)))"
        by (simp add: is_dedup_event_def is_event_of_def)
      from True s have "seenEvents (intercept c st) =
          Some (seen(''connect_'' @ int_toString (toInt32 (args 0)) \<mapsto> True))"
        and "console (intercept c st) = console st @
          [''[Native] Connect called with sockfd: '' @ int_toString (toInt32 (args 0)),
           connect_event (toInt32 (args 0))]"
        by (simp_all add: connect intercept_connect)
      with s nd dedup_line.connect [of "toInt32 (args 0)"] show ?thesis by blast
    qed
  next
    case send
    show ?thesis
    proof (cases "libc_send \<in> set (hooks st) \<and> (\<exists>seen. seenEvents st = Some seen \<and>
              seen (''send_'' @ int_toString (toInt32 (args 0)) @ ''_''
                      @ int_toString (toInt32 (args 2))) \<noteq> Some True)")
      case False
      then have "intercept c st = st"
        by (auto simp: send intercept_send split: option.splits)
      then show ?thesis by simp
    next
      case True
      then obtain seen where s: "seenEvents st = Some seen"
        "seen (''send_'' @ int_toString (toInt32 (args 0)) @ ''_''
                 @ int_toString (toInt32 (args 2))) \<noteq> Some True" by blast
      have nd: "\<not> is_dedup_event (''[Native] Sending '' @ int_toString (toInt32 (args 2))
                          @ '' bytes on socket '' @ int_toString (toInt32 (args 0)))"
        by (simp add: is_dedup_event_def is_event_of_def)
      from True s have "seenEvents (intercept c st) =
          Some (seen(''send_'' @ int_toString (toInt32 (args 0)) @ ''_''
                 @ int_toString (toInt32 (args 2)) \<mapsto> True))"
        and "console (intercept c st) = console st @
          [''[Native] Sending '' @ int_toString (toInt32 (args 2))
                          @ '' bytes on socket '' @ int_toString (toInt32 (args 0)),
           send_event (toInt32 (args 0)) (toInt32 (args 2))]"
        by (simp_all add: send intercept_send)
      with s nd dedup_line.send [of "toInt32 (args 0)" "toInt32 (args 2)"] show ?thesis by blast
    qed
  next
    case recv
    show ?thesis
    proof (cases "libc_recv \<in> set (hooks st) \<and> (\<exists>seen. seenEvents st = Some seen \<and>
              seen (''recv_'' @ int_toString (toInt32 (args 0)) @ ''_''
                      @ int_toString (toInt32 (args 2))) \<noteq> Some True)")
      case False
      then have "intercept c st = st"
        by (auto simp: recv intercept_recv split: option.splits)
      then show ?thesis by simp
    next
      case True
      then obtain seen where s: "seenEvents st = Some seen"
        "seen (''recv_'' @ int_toString (toInt32 (args 0)) @ ''_''
                 @ int_toString (toInt32 (args 2))) \<noteq> Some True" by blast
      have nd: "\<not> is_dedup_event (''[Native] Receiving up to '' @ int_toString (toInt32 (args 2))
                          @ '' bytes on socket '' @ int_toString (toInt32 (args 0)))"
        by (simp add: is_dedup_event_def is_event_of_def)
      from True s have "seenEvents (intercept c st) =
          Some (seen(''recv_'' @ int_toString (toInt32 (args 0)) @ ''_''
                 @ int_toString (toInt32 (args 2)) \<mapsto> True))"
        and "console (intercept c st) = console st @
          [''[Native] Receiving up to '' @ int_toString (toInt32 (args 2))
                          @ '' bytes on socket '' @ int_toString (toInt32 (args 0)),
           recv_event (toInt32 (args 0)) (toInt32 (args 2))]"
        by (simp_all add: recv intercept_recv)
      with s nd dedup_line.recv [of "toInt32 (args 0)" "toInt32 (args 2)"] show ?thesis by blast
    qed
  qed
qed

lemma dedup_inv_step:
  assumes k0: "dedup_line k0 e0"
    and c1: "count_list (console st) e0 \<le> 1"
    and c2: "e0 \<in> set (console st) \<longrightarrow> (\<exists>seen. seenEvents st = Some seen \<and> seen k0 = Some True)"
  shows "count_list (console (intercept c st)) e0 \<le> 1 \<and>
         (e0 \<in> set (console (intercept c st)) \<longrightarrow>
            (\<exists>seen. seenEvents (intercept c st) = Some seen \<and> seen k0 = Some True))"
  using intercept_shape [of c st]
proof (elim disjE conjE exE)
  fix ls
  assume same: "seenEvents (intercept c st) = seenEvents st"
    and app: "console (intercept c st) = console st @ ls"
    and nd: "\<forall>l \<in> set ls. \<not> is_dedup_event l"
  from nd dedup_line_is_event [OF k0] have "e0 \<notin> set ls" by blast
  then have "count_list ls e0 = 0" by (simp add: count_list_0_iff)
  with app same c1 c2 \<open>e0 \<notin> set ls\<close> show ?thesis by auto
next
  fix seen k d e
  assume s: "seenEvents st = Some seen" and nk: "seen k \<noteq> Some True"
    and dl: "dedup_line k e" and nd: "\<not> is_dedup_event d"
    and s': "seenEvents (intercept c st) = Some (seen(k \<mapsto> True))"
    and app: "console (intercept c st) = console st @ [d, e]"
  from nd dedup_line_is_event [OF k0] have d: "d \<noteq> e0" by blast
  show ?thesis
  proof (cases "e = e0")
    case True
    with dl k0 have "k = k0" using dedup_line_key by blast
    with nk s c2 have "e0 \<notin> set (console st)" by auto
    then have "count_list (console st) e0 = 0" by (simp add: count_list_0_iff)
    with app s' d True \<open>k = k0\<close> show ?thesis by simp
  next
    case False
    with app d c1 c2 s s' show ?thesis by auto
  qed
qed

lemma dedup_inv_run:
  fixes calls :: "('a::len word) call list"
  assumes "dedup_line k0 e0"
    and "count_list (console st) e0 \<le> 1"
    and "e0 \<in> set (console st) \<longrightarrow> (\<exists>seen. seenEvents st = Some seen \<and> seen k0 = Some True)"
  shows "count_list (console (run calls st)) e0 \<le> 1"
  using assms
proof (induction calls arbitrary: st)
  case Nil
  then show ?case by simp
next
  case (Cons c calls)
  from dedup_inv_step [OF Cons.prems, of c] Cons.IH [of "intercept c st"] Cons.prems(1)
  show ?case by simp
qed

lemma dedup_line_once:
  fixes calls :: "('a::len word) call list"
  assumes "dedup_line k0 e0" and "\<forall>l \<in> set (console st). \<not> is_event_line l"
  shows "count_list (console (run calls st)) e0 \<le> 1"
proof -
  from assms dedup_line_is_event_line have "e0 \<notin> set (console st)" by blast
  then have "count_list (console st) e0 = 0" by (simp add: count_list_0_iff)
  with \<open>e0 \<notin> set (console st)\<close> assms(1) show ?thesis
    by (intro dedup_inv_run [of k0]) simp_all
qed

lemma socket_events_step:
  "length (filter (is_event_of ''libc.socket'') (console (intercept c st)))
     = length (filter (is_event_of ''libc.socket'') (console st))
       + (if is_socket_call c \<and> libc_socket \<in> set (hooks st) then 1 else 0)"
proof (cases c)
  case (Call_File_init bt path)
  show ?thesis
  proof (cases bt)
    case (Inl e)
    with Call_File_init show ?thesis
      by (simp add: intercept_def File_init_steps_def throw_def shouldLogApi_def monitoredApis_def)
  next
    case (Inr stack)
    with Call_File_init show ?thesis
      by (simp add: intercept_def File_init_steps_line append_lines_def is_event_of_def
          event_line_def)
  qed
next
  case (Call_FileOutputStream_init path)
  then show ?thesis
    by (simp add: intercept_def FileOutputStream_init_steps_def append_lines_def is_event_of_def)
next
  case (Call_FileInputStream_init path)
  then show ?thesis
    by (simp add: intercept_def FileInputStream_init_steps_def append_lines_def is_event_of_def)
next
  case (Call_openFileOutput fileName mode)
  then show ?thesis
    by (simp add: intercept_def openFileOutput_steps_def append_lines_def is_event_of_def)
next
  case Call_onCreate
  then show ?thesis by (simp add: intercept_def append_lines_def is_event_of_def)
next
  case Call_setupFileOperationButton
  then show ?thesis by (simp add: intercept_def append_lines_def is_event_of_def)
next
  case Call_onClick
  then show ?thesis by (simp add: intercept_def append_lines_def is_event_of_def)
next
  case (Call_socket args)
  then show ?thesis by (simp add: intercept_socket is_event_of_def event_line_def)
next
  case (Call_connect args)
  then show ?thesis
    by (simp add: intercept_connect is_event_of_def connect_event_def event_line_def
        split: option.splits)
next
  case (Call_send args)
  then show ?thesis
    by (simp add: intercept_send is_event_of_def send_event_def event_line_def
        split: option.splits)
next
  case (Call_recv args)
  then show ?thesis
    by (simp add: intercept_recv is_event_of_def recv_event_def event_line_def
        split: option.splits)
qed

lemma socket_events_run:
  fixes calls :: "('a::len word) call list"
  assumes "libc_socket \<in> set (hooks st)"
  shows "length (filter (is_event_of ''libc.socket'') (console (run calls st)))
     = length (filter (is_event_of ''libc.socket'') (console st))
       + length (filter is_socket_call calls)"
  using assms
proof (induction calls arbitrary: st)
  case Nil
  then show ?case by simp
next
  case (Cons c calls)
  from Cons.IH [of "intercept c st"] Cons.prems socket_events_step [of c st]
  show ?case by simp
qed

section \<open>Managed events\<close>

text \<open>
  Claim C7. The managed hooks that write structured event lines never deduplicate: over
  any sequence of intercepted calls of the \<open>java.io.File\<close>, \<open>java.io.FileOutputStream\<close> and
  \<open>java.io.FileInputStream\<close> constructors and of \<open>Context.openFileOutput\<close> (the stack capture
  of the first having returned its frames), every call adds one structured event line,
  so \<open>n\<close> calls, identical or not, add \<open>n\<close> lines.
\<close>

theorem managed_events_never_deduplicated:
  fixes calls :: "('a::len word) call list"
  assumes "\<forall>c \<in> set calls. monitored_managed_call c"
    and "{File_init, FileOutputStream_init, FileInputStream_init, Context_openFileOutput}
           \<subseteq> set (hooks st)"
  shows "length (filter is_event_line (console (run calls st)))
           = length (filter is_event_line (console st)) + length calls"
  using assms
proof (induction calls arbitrary: st)
  case Nil
  then show ?case by simp
next
  case (Cons c calls)
  from Cons.prems have m: "monitored_managed_call c" by simp
  with Cons.prems(2) have r: "target_of c \<in> set (hooks st)"
    using monitored_target [of c] by blast
  have "length (filter is_event_line (console (run calls (intercept c st))))
          = length (filter is_event_line (console (intercept c st))) + length calls"
    using Cons.prems by (intro Cons.IH) simp_all
  with managed_intercept_events [OF m r] show ?case by simp
qed

text \<open>
  Claim C7 on four calls, two identical constructions of a \<open>java.io.File\<close> and two
  identical constructions of a \<open>java.io.FileOutputStream\<close>: four structured event lines.
\<close>

theorem managed_events_never_deduplicated_witness:
  "monitored_managed_call (Call_File_init (Inr sample_stack) (Some ''/data/a.txt'') :: 64 word call) \<and>
   monitored_managed_call (Call_FileOutputStream_init (Some ''/data/a.txt'') :: 64 word call) \<and>
   length (filter is_event_line (console (run
     [Call_File_init (Inr sample_stack) (Some ''/data/a.txt''),
      Call_File_init (Inr sample_stack) (Some ''/data/a.txt''),
      Call_FileOutputStream_init (Some ''/data/a.txt''),
      Call_FileOutputStream_init (Some ''/data/a.txt'') :: 64 word call]
     (loaded full_host)))) = 4"
proof -
  have h1: "\<forall>c \<in> set [Call_File_init (Inr sample_stack) (Some ''/data/a.txt''),
      Call_File_init (Inr sample_stack) (Some ''/data/a.txt''),
      Call_FileOutputStream_init (Some ''/data/a.txt''),
      Call_FileOutputStream_init (Some ''/data/a.txt'') :: 64 word call]. monitored_managed_call c"
    by simp
  have h2: "{File_init, FileOutputStream_init, FileInputStream_init, Context_openFileOutput}
           \<subseteq> set (hooks (loaded full_host))"
    by (simp add: hooks_loaded_full)
  have c0: "length (filter is_event_line (console (loaded full_host))) = 0"
    by (simp add: console_loaded_full is_event_line_def)
  from managed_events_never_deduplicated [OF h1 h2] c0 show ?thesis by simp
qed

section \<open>The script never binds seenEvents\<close>

lemma keeps_seqs_Nil: "keeps_seenEvents (seqs [])"
  by (simp add: keeps_seenEvents_def)

lemma keeps_seqs_Cons:
  assumes "keeps_seenEvents s" and "keeps_seenEvents (seqs ss)"
  shows "keeps_seenEvents (seqs (s # ss))"
  unfolding keeps_seenEvents_def
proof
  fix st
  obtain r st' where r: "s st = (r, st')" by (cases "s st")
  with assms(1) have b: "seenEvents st' = seenEvents st"
    by (auto simp: keeps_seenEvents_def dest: spec [of _ st])
  from assms(2) have "seenEvents (snd (seqs ss st')) = seenEvents st'"
    by (simp add: keeps_seenEvents_def)
  with r b show "seenEvents (snd (seqs (s # ss) st)) = seenEvents st"
    by (cases r) simp_all
qed

lemma keeps_try_catch:
  assumes "keeps_seenEvents body" and "\<And>e. keeps_seenEvents (handler e)"
  shows "keeps_seenEvents (try_catch body handler)"
  unfolding keeps_seenEvents_def
proof
  fix st
  obtain r st' where r: "body st = (r, st')" by (cases "body st")
  with assms(1) have b: "seenEvents st' = seenEvents st"
    by (auto simp: keeps_seenEvents_def dest: spec [of _ st])
  from assms(2) have "\<And>e. seenEvents (snd (handler e st')) = seenEvents st'"
    by (simp add: keeps_seenEvents_def)
  with r b show "seenEvents (snd (try_catch body handler st)) = seenEvents st"
    by (cases r) (simp_all add: try_catch_def)
qed

lemma keeps_basic:
  "keeps_seenEvents (console_log l)"
  "keeps_seenEvents (throw e)"
  "keeps_seenEvents (register t)"
  "keeps_seenEvents (use_class h cls)"
  "keeps_seenEvents (set_implementation h cls m t)"
  "keeps_seenEvents (attach_export h name t)"
  "keeps_seenEvents (\<lambda>st. if b then register t st else (None, st))"
  by (simp_all add: keeps_seenEvents_def console_log_def throw_def register_def use_class_def
      set_implementation_def attach_export_def)

lemma script_keeps_seenEvents: "keeps_seenEvents (script h)"
  unfolding script_def monitor_setupFileOperationButton_def monitor_MainActivity1_def
    native_network_monitoring_def
  by (intro keeps_seqs_Cons keeps_seqs_Nil keeps_try_catch keeps_basic)

lemma script_never_binds_seenEvents: "seenEvents (loaded h) = None"
  using script_keeps_seenEvents [of h]
  by (simp add: loaded_def keeps_seenEvents_def init_state_def)

lemma seenEvents_unbound_step:
  "seenEvents st = None \<Longrightarrow> seenEvents (intercept c st) = None"
  using intercept_shape [of c st] by auto

lemma seenEvents_unbound_run:
  fixes calls :: "('a::len word) call list"
  shows "seenEvents st = None \<Longrightarrow> seenEvents (run calls st) = None"
  by (induction calls arbitrary: st) (simp_all add: seenEvents_unbound_step)

lemma no_dedup_event_step:
  assumes "seenEvents st = None"
  shows "filter is_dedup_event (console (intercept c st)) = filter is_dedup_event (console st)"
  using intercept_shape [of c st] assms by (auto simp: filter_empty_conv)

lemma no_dedup_event_run:
  fixes calls :: "('a::len word) call list"
  assumes "seenEvents st = None"
  shows "filter is_dedup_event (console (run calls st)) = filter is_dedup_event (console st)"
  using assms
proof (induction calls arbitrary: st)
  case Nil
  then show ?case by simp
next
  case (Cons c calls)
  from Cons.IH [of "intercept c st"] seenEvents_unbound_step [OF Cons.prems, of c]
    no_dedup_event_step [OF Cons.prems, of c]
  show ?case by simp
qed

lemma connect_unbound:
  "seenEvents st = None \<Longrightarrow>
     connect_onEnter args st = (Some (ReferenceError ''seenEvents is not defined''), st)"
  by (simp add: connect_onEnter_def)

lemma send_unbound:
  "seenEvents st = None \<Longrightarrow>
     send_onEnter args st = (Some (ReferenceError ''seenEvents is not defined''), st)"
  by (simp add: send_onEnter_def)

lemma recv_unbound:
  "seenEvents st = None \<Longrightarrow>
     recv_onEnter args st = (Some (ReferenceError ''seenEvents is not defined''), st)"
  by (simp add: recv_onEnter_def)

lemma intercept_unbound:
  "seenEvents st = None \<Longrightarrow> target_of c \<in> {libc_connect, libc_send, libc_recv} \<Longrightarrow>
     intercept c st = st"
  by (cases c) (simp_all add: intercept_connect intercept_send intercept_recv)

section \<open>Native events\<close>

text \<open>
  Claim C2, as amended. For the native targets \<open>connect\<close>, \<open>send\<close> and \<open>recv\<close> and every key
  (the descriptor for \<open>connect\<close>, the descriptor and the size argument for \<open>send\<close> and
  \<open>recv\<close>), at most one structured event line with that target and key is written over
  the whole sequence of interceptions, whatever \<open>seenEvents\<close> is bound to at the start.
  The \<open>socket\<close> target is not deduplicated: every interception of \<open>socket\<close> writes its
  structured event line.
\<close>

theorem native_events_at_most_once:
  fixes calls :: "('a::len word) call list"
  assumes "\<forall>l \<in> set (console st). \<not> is_event_line l"
  shows "count_list (console (run calls st)) (connect_event sockfd) \<le> 1 \<and>
         count_list (console (run calls st)) (send_event sockfd n) \<le> 1 \<and>
         count_list (console (run calls st)) (recv_event sockfd n) \<le> 1 \<and>
         (libc_socket \<in> set (hooks st) \<longrightarrow>
            length (filter (is_event_of ''libc.socket'') (console (run calls st)))
              = length (filter is_socket_call calls))"
proof -
  have "\<forall>l \<in> set (console st). \<not> is_event_of ''libc.socket'' l"
    using assms by (auto simp: is_event_of_def is_event_line_def prefix_def)
  then have e: "filter (is_event_of ''libc.socket'') (console st) = []"
    by (simp add: filter_empty_conv)
  have a: "count_list (console (run calls st)) (connect_event sockfd) \<le> 1"
    by (rule dedup_line_once [OF dedup_line.connect assms])
  have b: "count_list (console (run calls st)) (send_event sockfd n) \<le> 1"
    by (rule dedup_line_once [OF dedup_line.send assms])
  have c: "count_list (console (run calls st)) (recv_event sockfd n) \<le> 1"
    by (rule dedup_line_once [OF dedup_line.recv assms])
  from a b c e socket_events_run [of st calls] show ?thesis by simp
qed

lemma toInt32_argv_2_1:
  "toInt32 (argv [2, 1] 0) = 2" "toInt32 (argv [2, 1] 1) = 1" "toInt32 (argv [2, 1] (Suc 0)) = 1"
  by (simp_all add: argv_def toInt32_def)

lemma toInt32_argv_5: "toInt32 (argv [5] 0) = 5"
  by (simp add: argv_def toInt32_def)

lemma toInt32_argv_send:
  "toInt32 (argv [5, 0, 10] 0) = 5" "toInt32 (argv [5, 0, 10] 2) = 10"
  "toInt32 (argv [5, 0, 20] 0) = 5" "toInt32 (argv [5, 0, 20] 2) = 20"
  "toInt32 (argv [5, 0, 10] (Suc (Suc 0))) = 10" "toInt32 (argv [5, 0, 20] (Suc (Suc 0))) = 20"
  by (simp_all add: argv_def toInt32_def)

lemma int_toString_small:
  "int_toString 5 = ''5''" "int_toString 10 = ''10''" "int_toString 20 = ''20''"
  by (simp_all add: int_toString_def nat_toString.simps digit_char_def)

text \<open>
  The amended claim C2 after the script has loaded in a process that has every symbol:
  two identical \<open>socket\<close> calls and two identical \<open>connect\<close> calls.
\<close>

theorem native_events_at_most_once_witness:
  "filter is_event_line (console (loaded full_host)) = [] \<and>
   libc_socket \<in> set (hooks (loaded full_host)) \<and>
   count_list (console (run [Call_socket (argv [2, 1]), Call_socket (argv [2, 1]),
        Call_connect (argv [5]), Call_connect (argv [5])] (loaded full_host))) (connect_event 5) \<le> 1 \<and>
   length (filter (is_event_of ''libc.socket'')
     (console (run [Call_socket (argv [2, 1]), Call_socket (argv [2, 1]),
        Call_connect (argv [5]), Call_connect (argv [5])] (loaded full_host)))) = 2"
proof -
  have h: "\<forall>l \<in> set (console (loaded full_host)). \<not> is_event_line l"
    by (simp add: console_loaded_full is_event_line_def)
  have s: "libc_socket \<in> set (hooks (loaded full_host))"
    by (simp add: hooks_loaded_full)
  from h have e: "filter is_event_line (console (loaded full_host)) = []"
    by (simp add: filter_empty_conv)
  from native_events_at_most_once [OF h, of "[Call_socket (argv [2, 1]), Call_socket (argv [2, 1]),
        Call_connect (argv [5]), Call_connect (argv [5])]" 5 0] s e
  show ?thesis by simp
qed

text \<open>
  Claim C2 as stated fails for the \<open>socket\<close> target: two interceptions with the same
  domain and type write the same structured event line twice.
\<close>

theorem socket_events_repeat_counterexample:
  "count_list
     (console (run [Call_socket (argv [2, 1]), Call_socket (argv [2, 1])] (loaded full_host)))
     (event_line ''libc.socket'' ''native'' [(''domain'', ''AF_INET''), (''type'', ''SOCK_STREAM'')])
   = 2"
  by (simp add: intercept_socket hooks_loaded_full console_loaded_full toInt32_argv_2_1
      domainName_def typeName_def event_line_def)

text \<open>
  Claim C3 at its scenario, on the script as it is: \<open>connect\<close> is intercepted twice on
  descriptor 5 after the script has loaded. Reading the unbound identifier \<open>seenEvents\<close>
  raises a \<open>ReferenceError\<close> in the hook before anything is written, so no structured
  event line appears where the claim expects exactly one.
\<close>

theorem connect_twice_emits_nothing:
  "fst (hook_body (Call_connect (argv [5])) (loaded full_host))
     = Some (ReferenceError ''seenEvents is not defined'') \<and>
   filter is_event_line
     (console (run [Call_connect (argv [5]), Call_connect (argv [5])] (loaded full_host))) = []"
proof -
  have i: "intercept (Call_connect (argv [5])) (loaded full_host) = loaded full_host"
    by (rule intercept_unbound) (simp_all add: seenEvents_loaded_full)
  have "filter is_event_line (console (loaded full_host)) = []"
    by (simp add: console_loaded_full is_event_line_def)
  then show ?thesis
    by (simp add: i connect_unbound seenEvents_loaded_full)
qed

text \<open>With \<open>seenEvents\<close> bound to an empty object the same scenario writes the one line.\<close>

lemma connect_twice_if_declared:
  "filter is_event_line
     (console (run [Call_connect (argv [5]), Call_connect (argv [5])]
        ((loaded full_host)\<lparr>seenEvents := Some Map.empty\<rparr>)))
   = [event_line ''libc.connect'' ''native'' [(''sockfd'', ''5'')]]"
  by (simp add: intercept_connect hooks_loaded_full console_loaded_full toInt32_argv_5
      int_toString_small connect_event_def is_event_line_def event_line_def)

text \<open>
  Claim C4 at its scenario, on the script as it is: \<open>send\<close> is intercepted on descriptor 5
  with sizes 10, 20 and 10. For the same reason no structured event line appears where
  the claim expects two.
\<close>

theorem send_sizes_emit_nothing:
  "fst (hook_body (Call_send (argv [5, 0, 10])) (loaded full_host))
     = Some (ReferenceError ''seenEvents is not defined'') \<and>
   filter is_event_line
     (console (run [Call_send (argv [5, 0, 10]), Call_send (argv [5, 0, 20]),
                    Call_send (argv [5, 0, 10])] (loaded full_host))) = []"
proof -
  have i: "intercept (Call_send (argv [5, 0, 10])) (loaded full_host) = loaded full_host"
    "intercept (Call_send (argv [5, 0, 20])) (loaded full_host) = loaded full_host"
    by (rule intercept_unbound, simp_all add: seenEvents_loaded_full)+
  have "filter is_event_line (console (loaded full_host)) = []"
    by (simp add: console_loaded_full is_event_line_def)
  then show ?thesis
    by (simp add: i send_unbound seenEvents_loaded_full)
qed

text \<open>With \<open>seenEvents\<close> bound to an empty object the same scenario writes the two lines.\<close>

lemma send_sizes_if_declared:
  "filter is_event_line
     (console (run [Call_send (argv [5, 0, 10]), Call_send (argv [5, 0, 20]),
                    Call_send (argv [5, 0, 10])]
        ((loaded full_host)\<lparr>seenEvents := Some Map.empty\<rparr>)))
   = [event_line ''libc.send'' ''native'' [(''sockfd'', ''5''), (''size'', ''10'')],
      event_line ''libc.send'' ''native'' [(''sockfd'', ''5''), (''size'', ''20'')]]"
  by (simp add: intercept_send hooks_loaded_full console_loaded_full toInt32_argv_send
      int_toString_small send_event_def is_event_line_def event_line_def)

section \<open>Registration when a symbol is absent\<close>

lemma app_block:
  "try_catch (seqs [use_class h cls, set_implementation h cls m t])
      (\<lambda>e. console_log (p @ error_toString e)) st =
   (None,
    if app_target_present h cls m then st\<lparr>hooks := hooks st @ [t]\<rparr>
    else st\<lparr>console := console st @
           [p @ error_toString (case Java_use h cls of Some e \<Rightarrow> e
              | None \<Rightarrow> TypeError (''cannot read property of undefined: '' @ m))]\<rparr>)"
  by (cases "Java_use h cls")
     (simp_all add: try_catch_def use_class_def set_implementation_def register_def throw_def
        console_log_def app_target_present_def)

lemma attach_seq:
  "seqs (map (\<lambda>(name, t). attach_export h name t) exports) st =
     (if length (attached_exports h exports) < length exports
      then Some (Error ''expected a pointer'') else None,
      st\<lparr>hooks := hooks st @ attached_exports h exports\<rparr>)"
proof (induction exports arbitrary: st)
  case Nil
  then show ?case by simp
next
  case (Cons a exports)
  obtain name t where a: "a = (name, t)" by (cases a)
  show ?case
  proof (cases "findExportByName h ''libc.so'' name")
    case True
    with a Cons.IH [of "st\<lparr>hooks := hooks st @ [t]\<rparr>"] show ?thesis
      by (simp add: attach_export_def register_def)
  next
    case False
    with a show ?thesis
      by (simp add: attach_export_def throw_def)
  qed
qed

lemma native_block:
  "native_network_monitoring h st =
   (None,
    if length (attached_exports h native_exports) < 4
    then st\<lparr>hooks := hooks st @ attached_exports h native_exports,
            console := console st @
              [''Error setting up native network hooks: Error: expected a pointer'']\<rparr>
    else st\<lparr>hooks := hooks st @ attached_exports h native_exports\<rparr>)"
proof -
  have "seqs [attach_export h ''socket'' libc_socket,
            attach_export h ''connect'' libc_connect,
            attach_export h ''send'' libc_send,
            attach_export h ''recv'' libc_recv]
        = seqs (map (\<lambda>(name, t). attach_export h name t) native_exports)"
    by (simp add: native_exports_def)
  then show ?thesis
    unfolding native_network_monitoring_def
    by (simp only: try_catch_def attach_seq) (simp add: native_exports_def console_log_def)
qed

lemma monitor_setupFileOperationButton_result:
  "monitor_setupFileOperationButton h st =
   (None,
    if app_target_present h ''com.example.fridatestjavaapp.MainActivity''
         ''setupFileOperationButton''
    then st\<lparr>hooks := hooks st @ [MainActivity_setupFileOperationButton]\<rparr>
    else st\<lparr>console := console st @
           [''Could not monitor setupFileOperationButton: '' @ error_toString
              (case Java_use h ''com.example.fridatestjavaapp.MainActivity'' of Some e \<Rightarrow> e
               | None \<Rightarrow> TypeError (''cannot read property of undefined: ''
                           @ ''setupFileOperationButton''))]\<rparr>)"
  unfolding monitor_setupFileOperationButton_def by (rule app_block)

lemma monitor_MainActivity1_result:
  "monitor_MainActivity1 h st =
   (None,
    if app_target_present h ''com.example.fridatestjavaapp.MainActivity$1'' ''onClick''
    then st\<lparr>hooks := hooks st @ [MainActivity1_onClick]\<rparr>
    else st\<lparr>console := console st @
           [''Could not monitor MainActivity$1: '' @ error_toString
              (case Java_use h ''com.example.fridatestjavaapp.MainActivity$1'' of Some e \<Rightarrow> e
               | None \<Rightarrow> TypeError (''cannot read property of undefined: '' @ ''onClick''))]\<rparr>)"
  unfolding monitor_MainActivity1_def by (rule app_block)

lemma core_steps:
  assumes "core_present h"
  shows "seqs
     (console_log ''[+] Frida script loaded'' #
      use_class h ''java.io.File'' #
      set_implementation h ''java.io.File'' ''$init'' File_init #
      use_class h ''java.io.FileOutputStream'' #
      set_implementation h ''java.io.FileOutputStream'' ''$init'' FileOutputStream_init #
      use_class h ''java.io.FileInputStream'' #
      set_implementation h ''java.io.FileInputStream'' ''$init'' FileInputStream_init #
      use_class h ''android.content.Context'' #
      (\<lambda>st. if has_member h ''android.content.Context'' ''openFileOutput''
            then register Context_openFileOutput st else (None, st)) #
      use_class h ''android.app.Activity'' #
      set_implementation h ''android.app.Activity'' ''onCreate'' Activity_onCreate # rest) init_state
   = seqs rest
       \<lparr>hooks = [File_init, FileOutputStream_init, FileInputStream_init, Context_openFileOutput,
                 Activity_onCreate],
        seenEvents = None, console = [''[+] Frida script loaded'']\<rparr>"
  using assms
  by (simp add: core_present_def init_state_def console_log_def use_class_def
        set_implementation_def register_def)

lemma seqs_None: "s st = (None, st') \<Longrightarrow> seqs (s # ss) st = seqs ss st'"
  by simp

lemma hooks_loaded_core:
  assumes "core_present h"
  shows "hooks (loaded h) =
        [File_init, FileOutputStream_init, FileInputStream_init, Context_openFileOutput,
         Activity_onCreate]
        @ (if app_target_present h ''com.example.fridatestjavaapp.MainActivity''
                ''setupFileOperationButton''
           then [MainActivity_setupFileOperationButton] else [])
        @ (if app_target_present h ''com.example.fridatestjavaapp.MainActivity$1'' ''onClick''
           then [MainActivity1_onClick] else [])
        @ attached_exports h native_exports"
  unfolding loaded_def script_def core_steps [OF assms]
  by (simp add: monitor_setupFileOperationButton_result monitor_MainActivity1_result
      native_block console_log_def)

lemma console_loaded_core:
  assumes "core_present h"
  shows "console (loaded h) =
        [''[+] Frida script loaded'']
        @ (if app_target_present h ''com.example.fridatestjavaapp.MainActivity''
                ''setupFileOperationButton''
           then []
           else [''Could not monitor setupFileOperationButton: '' @ error_toString
                   (case Java_use h ''com.example.fridatestjavaapp.MainActivity'' of
                      Some e \<Rightarrow> e
                    | None \<Rightarrow> TypeError (''cannot read property of undefined: ''
                                @ ''setupFileOperationButton''))])
        @ (if app_target_present h ''com.example.fridatestjavaapp.MainActivity$1'' ''onClick''
           then []
           else [''Could not monitor MainActivity$1: '' @ error_toString
                   (case Java_use h ''com.example.fridatestjavaapp.MainActivity$1'' of
                      Some e \<Rightarrow> e
                    | None \<Rightarrow> TypeError (''cannot read property of undefined: '' @ ''onClick''))])
        @ [''[+] Setting up native network monitoring'']
        @ (if length (attached_exports h native_exports) < 4
           then [''Error setting up native network hooks: Error: expected a pointer''] else [])
        @ [''[+] Monitoring setup complete, waiting for operations...'']"
  unfolding loaded_def script_def core_steps [OF assms]
  by (simp add: monitor_setupFileOperationButton_result monitor_MainActivity1_result
      native_block console_log_def)

lemma completes_loaded_core:
  assumes "core_present h"
  shows "fst (script h init_state) = None"
  unfolding script_def core_steps [OF assms]
  by (simp add: monitor_setupFileOperationButton_result monitor_MainActivity1_result
      native_block console_log_def)

text \<open>
  Claim C8, as amended. In a process that has the classes and members the script hooks
  without a guard, loading completes, and: an application target (\<open>MainActivity\<close> with
  \<open>setupFileOperationButton\<close>, \<open>MainActivity$1\<close> with \<open>onClick\<close>) whose class or member is
  absent is skipped with a diagnostic line while every other hook is registered; the four
  native targets share one \<open>try\<close> block, so an absent export leaves the native hooks
  attached before it registered, skips it and the native targets after it, and writes
  one diagnostic line.
\<close>

theorem guarded_targets_skipped:
  assumes "core_present h"
  shows "fst (script h init_state) = None \<and>
     hooks (loaded h) =
        [File_init, FileOutputStream_init, FileInputStream_init, Context_openFileOutput,
         Activity_onCreate]
        @ (if app_target_present h ''com.example.fridatestjavaapp.MainActivity''
                ''setupFileOperationButton''
           then [MainActivity_setupFileOperationButton] else [])
        @ (if app_target_present h ''com.example.fridatestjavaapp.MainActivity$1'' ''onClick''
           then [MainActivity1_onClick] else [])
        @ attached_exports h native_exports \<and>
     (\<not> app_target_present h ''com.example.fridatestjavaapp.MainActivity''
           ''setupFileOperationButton'' \<longrightarrow>
        (\<exists>msg. ''Could not monitor setupFileOperationButton: '' @ msg \<in> set (console (loaded h)))) \<and>
     (\<not> app_target_present h ''com.example.fridatestjavaapp.MainActivity$1'' ''onClick'' \<longrightarrow>
        (\<exists>msg. ''Could not monitor MainActivity$1: '' @ msg \<in> set (console (loaded h)))) \<and>
     (length (attached_exports h native_exports) < 4 \<longrightarrow>
        (\<exists>msg. ''Error setting up native network hooks: '' @ msg \<in> set (console (loaded h))))"
proof -
  have a: "\<not> app_target_present h ''com.example.fridatestjavaapp.MainActivity''
           ''setupFileOperationButton'' \<longrightarrow>
        (\<exists>msg. ''Could not monitor setupFileOperationButton: '' @ msg \<in> set (console (loaded h)))"
    unfolding console_loaded_core [OF assms] by (intro impI exI) simp
  have b: "\<not> app_target_present h ''com.example.fridatestjavaapp.MainActivity$1'' ''onClick'' \<longrightarrow>
        (\<exists>msg. ''Could not monitor MainActivity$1: '' @ msg \<in> set (console (loaded h)))"
    unfolding console_loaded_core [OF assms] by (intro impI exI) simp
  have c: "length (attached_exports h native_exports) < 4 \<longrightarrow>
        (\<exists>msg. ''Error setting up native network hooks: '' @ msg \<in> set (console (loaded h)))"
    unfolding console_loaded_core [OF assms]
    by (intro impI exI [of _ "''Error: expected a pointer''"]) simp
  from completes_loaded_core [OF assms] hooks_loaded_core [OF assms] a b c
  show ?thesis by blast
qed

lemma core_present_without_MainActivity1: "core_present host_without_MainActivity1"
  by (simp add: core_present_def host_without_MainActivity1_def full_host_def)

text \<open>
  The amended claim C8 in a process without the class \<open>MainActivity$1\<close>: the ten other
  hooks are registered.
\<close>

theorem guarded_targets_skipped_witness:
  "core_present host_without_MainActivity1 \<and>
   \<not> app_target_present host_without_MainActivity1
       ''com.example.fridatestjavaapp.MainActivity$1'' ''onClick'' \<and>
   hooks (loaded host_without_MainActivity1) =
     [File_init, FileOutputStream_init, FileInputStream_init, Context_openFileOutput,
      Activity_onCreate, MainActivity_setupFileOperationButton,
      libc_socket, libc_connect, libc_send, libc_recv]"
proof -
  have p: "app_target_present host_without_MainActivity1
       ''com.example.fridatestjavaapp.MainActivity'' ''setupFileOperationButton''"
    by (simp add: app_target_present_def host_without_MainActivity1_def full_host_def)
  have q: "\<not> app_target_present host_without_MainActivity1
       ''com.example.fridatestjavaapp.MainActivity$1'' ''onClick''"
    by (simp add: app_target_present_def host_without_MainActivity1_def full_host_def)
  have n: "attached_exports host_without_MainActivity1 native_exports
             = [libc_socket, libc_connect, libc_send, libc_recv]"
    by (simp add: native_exports_def host_without_MainActivity1_def full_host_def)
  from guarded_targets_skipped [OF core_present_without_MainActivity1] p q n
    core_present_without_MainActivity1
  show ?thesis by simp
qed

text \<open>
  Claim C8 as stated fails: when only the export \<open>connect\<close> is absent, the hooks of
  \<open>send\<close> and \<open>recv\<close> are not registered either.
\<close>

theorem absent_connect_counterexample:
  "hooks (loaded host_without_connect) =
     [File_init, FileOutputStream_init, FileInputStream_init, Context_openFileOutput,
      Activity_onCreate, MainActivity_setupFileOperationButton, MainActivity1_onClick,
      libc_socket]"
  by (simp add: loaded_def script_def host_without_connect_def full_host_def init_state_def
      console_log_def throw_def use_class_def set_implementation_def register_def try_catch_def
      attach_export_def monitor_setupFileOperationButton_def monitor_MainActivity1_def
      native_network_monitoring_def)

section \<open>No deduplicated native event is ever written\<close>

text \<open>
  Since the script never binds \<open>seenEvents\<close>, the hooks of \<open>connect\<close>, \<open>send\<close> and \<open>recv\<close>
  raise on every interception: whatever the calls, the console never holds a structured
  event line of one of these three targets.
\<close>

lemma dedup_events_never_emitted:
  fixes calls :: "('a::len word) call list"
  assumes "core_present h"
  shows "filter is_dedup_event (console (run calls (loaded h))) = []"
proof -
  have "filter is_dedup_event (console (loaded h)) = []"
    unfolding console_loaded_core [OF assms]
    by (simp add: is_dedup_event_def is_event_of_def)
  with no_dedup_event_run [OF script_never_binds_seenEvents, of calls h] show ?thesis
    by simp
qed

end
